theory Spec2Isabelle
  imports
    Main
    "HOL-Library.Sublist"
    "HOL-Library.Char_ord"
    "HOL-Library.List_Lexorder"
    "HOL-Library.AList"
begin

text \<open>
  A model of \<^verbatim>\<open>src/index.ts\<close> of \<^verbatim>\<open>create-tsrouter-app\<close>: the merge of the manifest
  fragments (\<^verbatim>\<open>sortObject\<close>, \<^verbatim>\<open>createPackageJSON\<close>), the renderer
  (\<^verbatim>\<open>createTemplateFile\<close>), the file copies (\<^verbatim>\<open>createCopyFiles\<close>,
  \<^verbatim>\<open>copyFilesRecursively\<close>), the run (\<^verbatim>\<open>createApp\<close>) and the action of the command
  line. Asynchronous functions are modelled as steps on the state of the run, an
  exception as the error a step returns.
\<close>

section \<open>Strings\<close>

text \<open>
  JavaScript strings are modelled as \<^typ>\<open>string\<close>. The order on characters is the
  order of their codes and the order on strings is the lexicographic one, which is the
  order \<^verbatim>\<open>Array.prototype.sort()\<close> uses when it is called without a comparator.
\<close>

text \<open>
  \<^verbatim>\<open>s.replace(pat, '')\<close> with a string pattern: the leftmost occurrence of
  \<^verbatim>\<open>pat\<close> is removed, a string without an occurrence is returned as it is.
\<close>

fun remove_first :: "string \<Rightarrow> string \<Rightarrow> string" where
  "remove_first pat [] = []"
| "remove_first pat (c # cs) =
     (if prefix pat (c # cs) then drop (length pat) (c # cs) else c # remove_first pat cs)"

text \<open>\<^verbatim>\<open>s.endsWith(suffix)\<close>.\<close>

definition endsWith :: "string \<Rightarrow> string \<Rightarrow> bool" where
  "endsWith s suf = suffix suf s"

section \<open>Plain objects with string values\<close>

text \<open>
  A \<^verbatim>\<open>Record<string, string>\<close> is the list of its own properties in the order
  in which they were created; a key occurs once.
\<close>

type_synonym jsobj = "(string \<times> string) list"

definition wf_obj :: "jsobj \<Rightarrow> bool" where
  "wf_obj obj = distinct (map fst obj)"

text \<open>
  An array index is the canonical decimal form of an integer from \<open>0\<close> to
  \<open>2\<^sup>3\<^sup>2 - 2\<close>. The own keys of an ordinary object are enumerated with the array
  indices first, in ascending numeric order, and the other string keys after them in
  the order of their creation (ECMAScript's \<^verbatim>\<open>OrdinaryOwnPropertyKeys\<close>).
  \<^verbatim>\<open>Object.keys\<close>, the spread syntax and \<^verbatim>\<open>JSON.stringify\<close> all enumerate in
  this order.
\<close>

definition is_digit :: "char \<Rightarrow> bool" where
  "is_digit c = (CHR ''0'' \<le> c \<and> c \<le> CHR ''9'')"

definition num_val :: "string \<Rightarrow> nat" where
  "num_val s = foldl (\<lambda>n c. 10 * n + (of_char c - 48)) 0 s"

definition is_array_index :: "string \<Rightarrow> bool" where
  "is_array_index k =
     (k \<noteq> [] \<and> list_all is_digit k \<and> (k = ''0'' \<or> hd k \<noteq> CHR ''0'')
      \<and> num_val k < 4294967295)"

definition own_entries :: "jsobj \<Rightarrow> (string \<times> string) list" where
  "own_entries obj =
     sort_key (\<lambda>p. num_val (fst p)) (filter (\<lambda>p. is_array_index (fst p)) obj)
     @ filter (\<lambda>p. \<not> is_array_index (fst p)) obj"

definition own_keys :: "jsobj \<Rightarrow> string list" where
  "own_keys obj = map fst (own_entries obj)"

text \<open>
  Creating or overwriting an own data property: an existing key keeps its place and
  takes the new value, a new key goes to the end.
\<close>

definition set_prop :: "jsobj \<Rightarrow> string \<Rightarrow> string \<Rightarrow> jsobj" where
  "set_prop obj k v = AList.update k v obj"

text \<open>
  The spread \<^verbatim>\<open>{...a, ...b}\<close> copies the own properties of \<^verbatim>\<open>a\<close> and then
  those of \<^verbatim>\<open>b\<close> into a fresh object, each in its enumeration order; spreading
  \<^verbatim>\<open>undefined\<close> copies nothing.
\<close>

definition copy_props :: "jsobj \<Rightarrow> jsobj \<Rightarrow> jsobj" where
  "copy_props target src = foldl (\<lambda>acc p. set_prop acc (fst p) (snd p)) target (own_entries src)"

fun spread_into :: "jsobj \<Rightarrow> jsobj option \<Rightarrow> jsobj" where
  "spread_into target None = target"
| "spread_into target (Some src) = copy_props target src"

definition spread2 :: "jsobj option \<Rightarrow> jsobj option \<Rightarrow> jsobj" where
  "spread2 a b = spread_into (spread_into [] a) b"

text \<open>
  The assignment \<^verbatim>\<open>acc[key] = value\<close> on an object literal creates or overwrites
  the own property, except for the key \<^verbatim>\<open>__proto__\<close>: that one is the accessor
  inherited from \<^verbatim>\<open>Object.prototype\<close>, whose setter ignores a string.
\<close>

definition js_assign :: "jsobj \<Rightarrow> string \<Rightarrow> string \<Rightarrow> jsobj" where
  "js_assign acc key v = (if key = ''__proto__'' then acc else set_prop acc key v)"

text \<open>
  \<^verbatim>\<open>
  function sortObject(obj) {
    return Object.keys(obj).sort().reduce((acc, key) => {
      acc[key] = obj[key]
      return acc
    }, {})
  }
  \<close>
  Every key the reduction visits is an own key of \<^verbatim>\<open>obj\<close>, so the lookup finds a
  value.
\<close>

definition sortObject :: "jsobj \<Rightarrow> jsobj" where
  "sortObject obj =
     foldl (\<lambda>acc key. case map_of obj key of Some v \<Rightarrow> js_assign acc key v | None \<Rightarrow> acc)
       [] (sort (own_keys obj))"

section \<open>The manifest\<close>

datatype error =
    InvalidArgumentError string
  | TypeError string
  | IOError string
  | RenderFailure string
  | FormatFailure string
  | CommandFailure string

datatype mode = CODE_ROUTER | FILE_ROUTER

datatype phase = Setup | AddOnPhase

text \<open>
  A manifest fragment: each of the three sections is an object or is absent. The
  manifest itself has these sections, its name, and whatever other fields the base
  template holds (the record's extension).
\<close>

record fragment =
  dependencies :: "jsobj option"
  devDependencies :: "jsobj option"
  scripts :: "jsobj option"

record packageJSON = fragment +
  name :: "string option"

text \<open>The four steps of \<^verbatim>\<open>createPackageJSON\<close> that merge a fragment.\<close>

definition merge_typescript :: "'a packageJSON_scheme \<Rightarrow> 'b fragment_scheme \<Rightarrow> 'a packageJSON_scheme" where
  "merge_typescript pj ts =
     pj\<lparr>devDependencies := Some (spread2 (devDependencies pj) (devDependencies ts))\<rparr>"

definition merge_tailwind :: "'a packageJSON_scheme \<Rightarrow> 'b fragment_scheme \<Rightarrow> 'a packageJSON_scheme" where
  "merge_tailwind pj tw =
     pj\<lparr>dependencies := Some (spread2 (dependencies pj) (dependencies tw))\<rparr>"

definition merge_file_router :: "'a packageJSON_scheme \<Rightarrow> 'b fragment_scheme \<Rightarrow> 'a packageJSON_scheme" where
  "merge_file_router pj fr =
     pj\<lparr>dependencies := Some (spread2 (dependencies pj) (dependencies fr))\<rparr>"

definition merge_addOn :: "'a packageJSON_scheme \<Rightarrow> fragment \<Rightarrow> 'a packageJSON_scheme" where
  "merge_addOn pj addOn =
     pj\<lparr>dependencies := Some (spread2 (dependencies pj) (dependencies addOn)),
        devDependencies := Some (spread2 (devDependencies pj) (devDependencies addOn)),
        scripts := Some (spread2 (scripts pj) (scripts addOn))\<rparr>"

text \<open>
  \<^verbatim>\<open>sortObject(packageJSON.dependencies)\<close>: \<^verbatim>\<open>Object.keys(undefined)\<close> throws a
  \<^verbatim>\<open>TypeError\<close>.
\<close>

definition sortSection :: "jsobj option \<Rightarrow> error + jsobj" where
  "sortSection s =
     (case s of
        None \<Rightarrow> Inl (TypeError ''Cannot convert undefined or null to object'')
      | Some obj \<Rightarrow> Inr (sortObject obj))"

text \<open>
  The object \<^verbatim>\<open>createPackageJSON\<close> builds and then writes. The arguments are the
  parsed \<^verbatim>\<open>package.json\<close> of the base template, the parsed variant files
  \<^verbatim>\<open>package.ts.json\<close>, \<^verbatim>\<open>package.tw.json\<close> and \<^verbatim>\<open>package.fr.json\<close>, and the
  \<^verbatim>\<open>packageAdditions\<close> of the chosen add-ons.
\<close>

definition mergedPackageJSON ::
  "string \<Rightarrow> bool \<Rightarrow> bool \<Rightarrow> mode \<Rightarrow> 'a packageJSON_scheme
     \<Rightarrow> 'b fragment_scheme \<Rightarrow> 'b fragment_scheme \<Rightarrow> 'b fragment_scheme
     \<Rightarrow> fragment list \<Rightarrow> 'a packageJSON_scheme" where
  "mergedPackageJSON projectName typescript tailwind md base ts tw fr addOns =
     (let pj0 = base\<lparr>name := Some projectName\<rparr>;
          pj1 = (if typescript then merge_typescript pj0 ts else pj0);
          pj2 = (if tailwind then merge_tailwind pj1 tw else pj1);
          pj3 = (if md = FILE_ROUTER then merge_file_router pj2 fr else pj2)
      in foldl merge_addOn pj3 addOns)"

definition builtPackageJSON ::
  "string \<Rightarrow> bool \<Rightarrow> bool \<Rightarrow> mode \<Rightarrow> 'a packageJSON_scheme
     \<Rightarrow> 'b fragment_scheme \<Rightarrow> 'b fragment_scheme \<Rightarrow> 'b fragment_scheme
     \<Rightarrow> fragment list \<Rightarrow> error + 'a packageJSON_scheme" where
  "builtPackageJSON projectName typescript tailwind md base ts tw fr addOns =
     (let pj = mergedPackageJSON projectName typescript tailwind md base ts tw fr addOns
      in case sortSection (dependencies pj) of
           Inl e \<Rightarrow> Inl e
         | Inr deps \<Rightarrow>
             (case sortSection (devDependencies pj) of
                Inl e \<Rightarrow> Inl e
              | Inr devDeps \<Rightarrow>
                  Inr (pj\<lparr>dependencies := Some deps, devDependencies := Some devDeps\<rparr>)))"

section \<open>Paths\<close>

text \<open>
  Path strings are POSIX paths. A path string denotes the list of its components once
  empty components and \<^verbatim>\<open>.\<close> are dropped and \<^verbatim>\<open>..\<close> has removed the component
  before it, which is how \<^verbatim>\<open>path.resolve\<close> normalises. Every first argument of
  \<^verbatim>\<open>resolve\<close> in the program is an absolute path.
\<close>

fun split_on :: "char \<Rightarrow> string \<Rightarrow> string list" where
  "split_on d [] = [[]]"
| "split_on d (c # cs) =
     (if c = d then [] # split_on d cs
      else (case split_on d cs of [] \<Rightarrow> [[c]] | x # xs \<Rightarrow> (c # x) # xs))"

definition norm_step :: "string list \<Rightarrow> string \<Rightarrow> string list" where
  "norm_step acc c =
     (if c = [] \<or> c = ''.'' then acc else if c = ''..'' then butlast acc else acc @ [c])"

definition components :: "string \<Rightarrow> string list" where
  "components p = foldl norm_step [] (split_on CHR ''/'' p)"

definition path_str :: "string list \<Rightarrow> string" where
  "path_str cs = (if cs = [] then ''/'' else concat (map (\<lambda>c. CHR ''/'' # c) cs))"

definition resolve :: "string \<Rightarrow> string \<Rightarrow> string" where
  "resolve a b =
     (if b \<noteq> [] \<and> hd b = CHR ''/'' then path_str (components b)
      else path_str (components (a @ ''/'' @ b)))"

text \<open>
  \<^verbatim>\<open>path.dirname\<close> works on the text: it skips trailing slashes, then the last
  component, and returns what stands before the slash in front of that component. The
  first character is never examined by the scan.
\<close>

definition dirname :: "string \<Rightarrow> string" where
  "dirname path =
     (if path = [] then ''.''
      else
        let hasRoot = (hd path = CHR ''/'');
            r = dropWhile (\<lambda>c. c \<noteq> CHR ''/'') (dropWhile (\<lambda>c. c = CHR ''/'') (rev (tl path)))
        in if r = [] then (if hasRoot then ''/'' else ''.'')
           else if hasRoot \<and> tl r = [] then ''//''
           else hd path # rev (tl r))"

section \<open>The template catalog and the target file system\<close>

text \<open>
  The templates are installed with the package and are only read during a run; the run
  writes below the target directory. The model keeps the two apart: the catalog is an
  immutable tree, the file system the run writes to is a map from component lists to
  entries, whose root always is a directory.
\<close>

datatype node = File string | Dir "(string \<times> node) list"

fun node_at :: "node \<Rightarrow> string list \<Rightarrow> node option" where
  "node_at n [] = Some n"
| "node_at (File s) (c # cs) = None"
| "node_at (Dir es) (c # cs) = (case map_of es c of None \<Rightarrow> None | Some n \<Rightarrow> node_at n cs)"

definition cat_existsSync :: "node \<Rightarrow> string \<Rightarrow> bool" where
  "cat_existsSync cat path = (node_at cat (components path) \<noteq> None)"

definition readFile :: "node \<Rightarrow> string \<Rightarrow> error + string" where
  "readFile cat path =
     (case node_at cat (components path) of
        None \<Rightarrow> Inl (IOError ''ENOENT'')
      | Some (Dir es) \<Rightarrow> Inl (IOError ''EISDIR'')
      | Some (File s) \<Rightarrow> Inr s)"

datatype entry = FileE string | DirE

type_synonym fs = "string list \<Rightarrow> entry option"

definition is_dir :: "fs \<Rightarrow> string list \<Rightarrow> bool" where
  "is_dir f p = (p = [] \<or> f p = Some DirE)"

definition is_file :: "fs \<Rightarrow> string list \<Rightarrow> bool" where
  "is_file f p = (p \<noteq> [] \<and> (case f p of Some (FileE s) \<Rightarrow> True | _ \<Rightarrow> False))"

definition existsSync :: "fs \<Rightarrow> string \<Rightarrow> bool" where
  "existsSync f path = (components path = [] \<or> f (components path) \<noteq> None)"

text \<open>
  \<^verbatim>\<open>mkdir(path, { recursive: true })\<close>: fails when a file is in the way, with
  \<^verbatim>\<open>EEXIST\<close> when the file is at the path itself and with \<^verbatim>\<open>ENOTDIR\<close> when it is
  at a directory on the way to it.
\<close>

definition mkdir :: "string \<Rightarrow> fs \<Rightarrow> error + fs" where
  "mkdir path f =
     (let p = components path
      in if list_ex (is_file f) (prefixes p)
         then Inl (IOError (if is_file f p then ''EEXIST'' else ''ENOTDIR''))
         else Inr (\<lambda>q. if q \<noteq> [] \<and> prefix q p then Some DirE else f q))"

text \<open>
  \<^verbatim>\<open>writeFile\<close> replaces the content; \<^verbatim>\<open>appendFile\<close> opens with flag \<^verbatim>\<open>a\<close>,
  which appends to an existing file and creates a missing one. Both need the parent
  directory.
\<close>

definition writeFile :: "string \<Rightarrow> string \<Rightarrow> fs \<Rightarrow> error + fs" where
  "writeFile path content f =
     (let p = components path
      in if p = [] \<or> f p = Some DirE then Inl (IOError ''EISDIR'')
         else if \<not> is_dir f (butlast p) then Inl (IOError ''ENOENT'')
         else Inr (f(p \<mapsto> FileE content)))"

definition appendFile :: "string \<Rightarrow> string \<Rightarrow> fs \<Rightarrow> error + fs" where
  "appendFile path content f =
     (let p = components path
      in if p = [] \<or> f p = Some DirE then Inl (IOError ''EISDIR'')
         else if \<not> is_dir f (butlast p) then Inl (IOError ''ENOENT'')
         else Inr (f(p \<mapsto> FileE ((case f p of Some (FileE old) \<Rightarrow> old | _ \<Rightarrow> []) @ content))))"

definition copyFile :: "node \<Rightarrow> string \<Rightarrow> string \<Rightarrow> fs \<Rightarrow> error + fs" where
  "copyFile cat src dest f =
     (case readFile cat src of Inl e \<Rightarrow> Inl e | Inr content \<Rightarrow> writeFile dest content f)"

section \<open>Add-ons, options and the run's state\<close>

text \<open>
  The fields of \<^verbatim>\<open>AddOn\<close> the program itself reads, under the source's names
  (\<^verbatim>\<open>id\<close> and \<^verbatim>\<open>name\<close> carry a prefix). A command is the executable with its
  optional arguments.
\<close>

record AddOn =
  addOn_id :: string
  addOn_name :: string
  description :: string
  directory :: string
  packageAdditions :: fragment
  command :: "(string \<times> string list option) option"
  phase :: phase
  shadcnComponents :: "string list option"
  warning :: "string option"

record Options =
  typescript :: bool
  tailwind :: bool
  packageManager :: string
  mode :: mode
  addOns :: bool
  chosenAddOns :: "AddOn list"

text \<open>
  What the run shows on the terminal, in the order in which it happens: \<^verbatim>\<open>intro\<close>,
  \<^verbatim>\<open>outro\<close>, \<^verbatim>\<open>log.error\<close>, \<^verbatim>\<open>log.warn\<close>, and the spinner's \<^verbatim>\<open>start\<close> and
  \<^verbatim>\<open>stop\<close>, each with its message.
\<close>

datatype event =
    Intro string
  | Outro string
  | LogError string
  | LogWarn string
  | SpinnerStart string
  | SpinnerStop string

record world =
  files :: fs
  trace :: "event list"

text \<open>
  An awaited operation either completes or throws; in both cases the state it leaves
  stays. A thrown error ends the sequence it is part of.
\<close>

type_synonym step = "world \<Rightarrow> error option \<times> world"

definition seq :: "step \<Rightarrow> step \<Rightarrow> step" where
  "seq a b w = (case a w of (Some e, w') \<Rightarrow> (Some e, w') | (None, w') \<Rightarrow> b w')"

fun steps :: "step list \<Rightarrow> step" where
  "steps [] w = (None, w)"
| "steps (a # rest) w = seq a (steps rest) w"

definition skip :: step where
  "skip w = (None, w)"

definition run_if :: "bool \<Rightarrow> step \<Rightarrow> step" where
  "run_if b a = (if b then a else skip)"

definition on_files :: "(fs \<Rightarrow> error + fs) \<Rightarrow> step" where
  "on_files f w = (case f (files w) of Inl e \<Rightarrow> (Some e, w) | Inr f' \<Rightarrow> (None, w\<lparr>files := f'\<rparr>))"

definition emit :: "event \<Rightarrow> step" where
  "emit ev w = (None, w\<lparr>trace := trace w @ [ev]\<rparr>)"

definition try_val :: "error + 'a \<Rightarrow> ('a \<Rightarrow> step) \<Rightarrow> step" where
  "try_val r k w = (case r of Inl e \<Rightarrow> (Some e, w) | Inr v \<Rightarrow> k v w)"

section \<open>What the run takes from outside\<close>

record prettierOptions =
  semi :: bool
  singleQuote :: bool
  trailingComma :: string
  parser :: string

record templateValues =
  tv_packageManager :: string
  tv_projectName :: string
  tv_typescript :: bool
  tv_tailwind :: bool
  tv_js :: string
  tv_jsx :: string
  tv_fileRouter :: bool
  tv_codeRouter :: bool
  tv_addOnEnabled :: "(string \<times> bool) list"
  tv_addOns :: "AddOn list"

text \<open>
  The libraries and the environment: the working directory, the installed
  \<^verbatim>\<open>templates\<close> directory and the catalog it lies in, \<^verbatim>\<open>ejs\<close>'s \<^verbatim>\<open>render\<close>,
  \<^verbatim>\<open>prettier\<close>'s \<^verbatim>\<open>format\<close> (it is given the text and the options, nothing else),
  \<^verbatim>\<open>execa\<close> (command, arguments, working directory), \<^verbatim>\<open>JSON.parse\<close> of a manifest
  file and \<^verbatim>\<open>JSON.stringify\<close> of the manifest, the add-ons \<^verbatim>\<open>getAllAddOns\<close> loads,
  and the ids the user ticks in the prompt.
\<close>

record externals =
  cwd :: string
  templatesDir :: string
  catalog :: node
  render :: "string \<Rightarrow> templateValues \<Rightarrow> error + string"
  format :: "string \<Rightarrow> prettierOptions \<Rightarrow> error + string"
  execa :: "string \<Rightarrow> string list \<Rightarrow> string \<Rightarrow> fs \<Rightarrow> error + fs"
  JSON_parse :: "string \<Rightarrow> error + packageJSON"
  JSON_stringify :: "packageJSON \<Rightarrow> string"
  getAllAddOns :: "error + AddOn list"
  selected :: "string list"

definition pickAddOns :: "externals \<Rightarrow> AddOn list \<Rightarrow> AddOn list" where
  "pickAddOns E all = filter (\<lambda>addOn. addOn_id addOn \<in> set (selected E)) all"

section \<open>Copying and rendering single files\<close>

text \<open>
  \<^verbatim>\<open>
  for (const file of files) {
    const targetFileName = file.replace('.tw', '')
    await copyFile(resolve(templateDir, file), resolve(targetDir, targetFileName))
  }
  \<close>
\<close>

definition copyFiles_targetFileName :: "string \<Rightarrow> string" where
  "copyFiles_targetFileName file = remove_first ''.tw'' file"

definition copyFiles :: "externals \<Rightarrow> string \<Rightarrow> string \<Rightarrow> string list \<Rightarrow> step" where
  "copyFiles E targetDir templateDir fileNames =
     steps (map (\<lambda>file. on_files (copyFile (catalog E) (resolve templateDir file)
                                     (resolve targetDir (copyFiles_targetFileName file)))) fileNames)"

text \<open>
  The values a template is rendered with. \<^verbatim>\<open>addOnEnabled\<close> is built by the
  assignment \<^verbatim>\<open>acc[addOn.id] = true\<close> on an object literal, which creates no
  property for the id \<^verbatim>\<open>__proto__\<close>.
\<close>

definition mkTemplateValues :: "string \<Rightarrow> Options \<Rightarrow> templateValues" where
  "mkTemplateValues projectName options =
     \<lparr> tv_packageManager = packageManager options,
       tv_projectName = projectName,
       tv_typescript = typescript options,
       tv_tailwind = tailwind options,
       tv_js = (if typescript options then ''ts'' else ''js''),
       tv_jsx = (if typescript options then ''tsx'' else ''jsx''),
       tv_fileRouter = (mode options = FILE_ROUTER),
       tv_codeRouter = (mode options = CODE_ROUTER),
       tv_addOnEnabled =
         foldl (\<lambda>acc addOn. if addOn_id addOn = ''__proto__'' then acc
                             else AList.update (addOn_id addOn) True acc) [] (chosenAddOns options),
       tv_addOns = chosenAddOns options \<rparr>"

definition templateFile_target :: "string \<Rightarrow> string option \<Rightarrow> string" where
  "templateFile_target file targetFileName =
     (case targetFileName of Some t \<Rightarrow> t | None \<Rightarrow> remove_first ''.ejs'' file)"

definition formatOptions :: prettierOptions where
  "formatOptions = \<lparr> semi = False, singleQuote = True, trailingComma = ''all'', parser = ''typescript'' \<rparr>"

text \<open>
  \<^verbatim>\<open>templateFile(templateDir, file, targetFileName?)\<close> of \<^verbatim>\<open>createTemplateFile\<close>: read,
  render, format when the target ends in \<^verbatim>\<open>.ts\<close> or \<^verbatim>\<open>.tsx\<close>, make the directory,
  write.
\<close>

definition templateFile ::
  "externals \<Rightarrow> string \<Rightarrow> Options \<Rightarrow> string \<Rightarrow> string \<Rightarrow> string \<Rightarrow> string option \<Rightarrow> step" where
  "templateFile E projectName options targetDir templateDir file targetFileName =
     try_val (readFile (catalog E) (resolve templateDir file)) (\<lambda>template.
     try_val (render E template (mkTemplateValues projectName options)) (\<lambda>content.
     let target = templateFile_target file targetFileName in
     try_val (if endsWith target ''.ts'' \<or> endsWith target ''.tsx''
              then format E content formatOptions else Inr content) (\<lambda>content'.
     steps [on_files (mkdir (dirname (resolve targetDir target))),
            on_files (writeFile (resolve targetDir target) content')])))"

section \<open>The tree composer\<close>

text \<open>
  \<^verbatim>\<open>copyFilesRecursively(source, target, copyFile, templateFile)\<close>. The first argument
  of the model is what \<^verbatim>\<open>statSync\<close>, \<^verbatim>\<open>readdirSync\<close> and \<^verbatim>\<open>readFile\<close> find at
  \<^verbatim>\<open>source\<close>: a directory with its entries in the order \<^verbatim>\<open>readdirSync\<close> lists them,
  or a file with its content.
\<close>

definition ejs_targetPath :: "string \<Rightarrow> string" where
  "ejs_targetPath target = remove_first ''.ejs'' target"

definition append_target :: "string \<Rightarrow> string" where
  "append_target target = remove_first ''.append'' target"

fun copyFilesRecursively ::
  "node \<Rightarrow> string \<Rightarrow> string \<Rightarrow> (string \<Rightarrow> string \<Rightarrow> step) \<Rightarrow> (string \<Rightarrow> string option \<Rightarrow> step) \<Rightarrow> step" where
  "copyFilesRecursively (Dir entries) source target copyFile' templateFile' =
     steps (map (\<lambda>e. copyFilesRecursively (snd e) (resolve source (fst e)) (resolve target (fst e))
                        copyFile' templateFile') entries)"
| "copyFilesRecursively (File content) source target copyFile' templateFile' =
     (if endsWith source ''.ejs'' then
        steps [on_files (mkdir (dirname (ejs_targetPath target))),
               templateFile' source (Some (ejs_targetPath target))]
      else
        seq (on_files (mkdir (dirname target)))
            (if endsWith source ''.append''
             then on_files (appendFile (append_target target) content)
             else copyFile' source target))"

section \<open>Writing the manifest\<close>

definition readJSON :: "externals \<Rightarrow> string \<Rightarrow> error + packageJSON" where
  "readJSON E path =
     (case readFile (catalog E) path of Inl e \<Rightarrow> Inl e | Inr txt \<Rightarrow> JSON_parse E txt)"

text \<open>
  \<^verbatim>\<open>createPackageJSON\<close>: the base manifest is read first, each variant file only when
  its option is set (the merge does not look at a variant whose option is off, the base
  stands in for it here), then the manifest is built and written.
\<close>

definition createPackageJSON ::
  "externals \<Rightarrow> string \<Rightarrow> Options \<Rightarrow> string \<Rightarrow> string \<Rightarrow> string \<Rightarrow> fragment list \<Rightarrow> step" where
  "createPackageJSON E projectName options templateDir routerDir targetDir additions =
     try_val (readJSON E (resolve templateDir ''package.json'')) (\<lambda>base.
     try_val (if typescript options
              then readJSON E (resolve templateDir ''package.ts.json'') else Inr base) (\<lambda>ts.
     try_val (if tailwind options
              then readJSON E (resolve templateDir ''package.tw.json'') else Inr base) (\<lambda>tw.
     try_val (if mode options = FILE_ROUTER
              then readJSON E (resolve routerDir ''package.fr.json'') else Inr base) (\<lambda>fr.
     try_val (builtPackageJSON projectName (typescript options) (tailwind options) (mode options)
                base ts tw fr additions) (\<lambda>pj.
     on_files (writeFile (resolve targetDir ''package.json'') (JSON_stringify E pj)))))))"

section \<open>Composing the add-ons\<close>

text \<open>
  The body of the inner loop over the add-ons of one phase:
  \<^verbatim>\<open>
  s.start(`Setting up ${addOn.name}...`)
  const addOnDir = resolve(addOn.directory, 'assets')
  if (existsSync(addOnDir)) {
    await copyFilesRecursively(addOnDir, targetDir, copyFile,
      async (file, targetFileName) => templateFile(addOnDir, file, targetFileName))
  }
  if (addOn.command) {
    await execa(addOn.command.command, addOn.command.args || [], { cwd: targetDir })
  }
  s.stop(`${addOn.name} setup complete`)
  \<close>
\<close>

definition composeAddOn :: "externals \<Rightarrow> string \<Rightarrow> Options \<Rightarrow> string \<Rightarrow> AddOn \<Rightarrow> step" where
  "composeAddOn E projectName options targetDir addOn =
     (let addOnDir = resolve (directory addOn) ''assets''
      in steps
        [emit (SpinnerStart (''Setting up '' @ addOn_name addOn @ ''...'')),
         (case node_at (catalog E) (components addOnDir) of
            None \<Rightarrow> skip
          | Some n \<Rightarrow>
              copyFilesRecursively n addOnDir targetDir
                (\<lambda>src dest. on_files (copyFile (catalog E) src dest))
                (\<lambda>file targetFileName.
                   templateFile E projectName options targetDir addOnDir file targetFileName)),
         (case command addOn of
            None \<Rightarrow> skip
          | Some c \<Rightarrow>
              on_files (execa E (fst c) (case snd c of None \<Rightarrow> [] | Some args \<Rightarrow> args) targetDir)),
         emit (SpinnerStop (addOn_name addOn @ '' setup complete''))])"

text \<open>
  \<^verbatim>\<open>
  for (const phase of ['setup', 'add-on']) {
    for (const addOn of options.chosenAddOns.filter((addOn) => addOn.phase === phase)) { ... }
  }
  \<close>
\<close>

definition composeAddOns :: "externals \<Rightarrow> string \<Rightarrow> Options \<Rightarrow> string \<Rightarrow> step" where
  "composeAddOns E projectName options targetDir =
     steps (map (\<lambda>ph. steps (map (composeAddOn E projectName options targetDir)
                                (filter (\<lambda>addOn. phase addOn = ph) (chosenAddOns options))))
                [Setup, AddOnPhase])"

section \<open>The run\<close>

definition mode_name :: "mode \<Rightarrow> string" where
  "mode_name m = (case m of CODE_ROUTER \<Rightarrow> ''code-router'' | FILE_ROUTER \<Rightarrow> ''file-router'')"

definition isAddOnEnabled :: "Options \<Rightarrow> string \<Rightarrow> bool" where
  "isAddOnEnabled options i = (find (\<lambda>a. addOn_id a = i) (chosenAddOns options) \<noteq> None)"

fun join :: "string \<Rightarrow> string list \<Rightarrow> string" where
  "join sep [] = []"
| "join sep [x] = x"
| "join sep (x # y # ys) = x @ sep @ join sep (y # ys)"

text \<open>
  \<^verbatim>\<open>if (options.addOns) { options.chosenAddOns = await pickAddOns(await getAllAddOns()) }\<close>
\<close>

definition withChosenAddOns :: "externals \<Rightarrow> Options \<Rightarrow> error + Options" where
  "withChosenAddOns E options =
     (if addOns options
      then (case getAllAddOns E of
              Inl e \<Rightarrow> Inl e
            | Inr all \<Rightarrow> Inr (options\<lparr>chosenAddOns := pickAddOns E all\<rparr>))
      else Inr options)"

definition shadcnComponentSet :: "AddOn list \<Rightarrow> string list" where
  "shadcnComponentSet chosen =
     foldl (\<lambda>acc c. if c \<in> set acc then acc else acc @ [c]) []
       (concat (map (\<lambda>addOn. case shadcnComponents addOn of None \<Rightarrow> [] | Some cs \<Rightarrow> cs) chosen))"

definition installShadcn :: "externals \<Rightarrow> Options \<Rightarrow> string \<Rightarrow> step" where
  "installShadcn E options targetDir =
     run_if (isAddOnEnabled options ''shadcn'')
       (let cs = shadcnComponentSet (chosenAddOns options)
        in run_if (cs \<noteq> [])
             (steps [emit (SpinnerStart (''Installing shadcn components ('' @ join '', '' cs @ '')...'')),
                     on_files (execa E ''npx'' ([''shadcn@canary'', ''add''] @ cs) targetDir),
                     emit (SpinnerStop ''Installed shadcn components'')]))"

definition warnings :: "Options \<Rightarrow> string list" where
  "warnings options =
     concat (map (\<lambda>addOn. case warning addOn of None \<Rightarrow> [] | Some t \<Rightarrow> (if t = [] then [] else [t]))
               (chosenAddOns options))"

definition outroText :: "string \<Rightarrow> Options \<Rightarrow> string \<Rightarrow> string" where
  "outroText projectName options targetDir =
     ''Created your new TanStack app in '' @ targetDir @ ''.'' @ [CHR 0x0A, CHR 0x0A]
     @ ''Use the following commands to start your app:'' @ [CHR 0x0A, CHR 0x0A]
     @ ''% cd '' @ projectName @ [CHR 0x0A]
     @ ''% '' @ packageManager options @ '' ''
     @ (if isAddOnEnabled options ''start'' then ''dev'' else ''start'') @ [CHR 0x0A, CHR 0x0A]
     @ ''Please read README.md for more information on testing, styling, adding routes, react-query, etc.''
     @ [CHR 0x0A]"

text \<open>
  \<^verbatim>\<open>createApp(projectName, options)\<close>. Two calls of \<^verbatim>\<open>copyFiles\<close> are started
  without \<^verbatim>\<open>await\<close>: the program goes on while the copies are under way, and a
  failing copy is an unhandled rejection, which ends the process at some later moment.
  The model runs each of the two calls to its end where it is called, so a failing copy
  ends the run there; the files of a run in which these copies succeed are the same.
\<close>

definition createApp :: "externals \<Rightarrow> string \<Rightarrow> Options \<Rightarrow> step" where
  "createApp E projectName options0 w =
     (let templateDirBase = resolve (templatesDir E) ''base'';
          templateDirRouter = resolve (templatesDir E) (mode_name (mode options0));
          targetDir = resolve (cwd E) projectName
      in if existsSync (files w) targetDir
         then emit (LogError (''Directory '' @ [CHR 0x22] @ projectName @ [CHR 0x22] @ '' already exists'')) w
         else
           try_val (withChosenAddOns E options0) (\<lambda>options.
             let copyFiles' = copyFiles E targetDir;
                 templateFile' = templateFile E projectName options targetDir
             in steps
               [emit (Intro (''Creating a new TanStack app in '' @ targetDir @ ''...'')),
                on_files (mkdir targetDir),
                on_files (mkdir (resolve targetDir ''.vscode'')),
                on_files (copyFile (catalog E) (resolve templateDirBase ''.vscode/settings.json'')
                            (resolve targetDir ''.vscode/settings.json'')),
                on_files (mkdir (resolve targetDir ''public'')),
                copyFiles' templateDirBase
                  [''./public/robots.txt'', ''./public/favicon.ico'', ''./public/manifest.json'',
                   ''./public/logo192.png'', ''./public/logo512.png''],
                on_files (mkdir (resolve targetDir ''src'')),
                run_if (mode options = FILE_ROUTER)
                  (steps [on_files (mkdir (resolve targetDir ''src/routes'')),
                          on_files (mkdir (resolve targetDir ''src/components''))]),
                run_if (\<not> tailwind options) (copyFiles' templateDirBase [''./src/App.css'']),
                templateFile' templateDirBase ''./vite.config.js.ejs'' None,
                templateFile' templateDirBase ''./src/styles.css.ejs'' None,
                copyFiles' templateDirBase [''./src/logo.svg''],
                (if mode options = FILE_ROUTER then
                   steps [templateFile' templateDirRouter ''./src/components/Header.tsx.ejs''
                            (Some ''./src/components/Header.tsx''),
                          templateFile' templateDirRouter ''./src/routes/__root.tsx.ejs''
                            (Some ''./src/routes/__root.tsx''),
                          templateFile' templateDirBase ''./src/App.tsx.ejs''
                            (Some ''./src/routes/index.tsx'')]
                 else
                   steps [templateFile' templateDirBase ''./src/App.tsx.ejs''
                            (if typescript options then None else Some ''./src/App.jsx''),
                          templateFile' templateDirBase ''./src/App.test.tsx.ejs''
                            (if typescript options then None else Some ''./src/App.test.jsx'')]),
                run_if (\<not> isAddOnEnabled options ''start'')
                  (templateFile' templateDirRouter ''./src/main.tsx.ejs''
                     (if typescript options then None else Some ''./src/main.jsx'')),
                run_if (\<not> isAddOnEnabled options ''start'')
                  (steps [templateFile' templateDirBase ''./src/reportWebVitals.ts.ejs''
                            (if typescript options then None else Some ''./src/reportWebVitals.js''),
                          templateFile' templateDirBase ''./index.html.ejs'' None]),
                run_if (typescript options)
                  (templateFile' templateDirBase ''./tsconfig.json.ejs'' (Some ''./tsconfig.json'')),
                createPackageJSON E projectName options templateDirBase templateDirRouter targetDir
                  (map packageAdditions (chosenAddOns options)),
                composeAddOns E projectName options targetDir,
                installShadcn E options targetDir,
                on_files (copyFile (catalog E) (resolve templateDirBase ''gitignore'')
                            (resolve targetDir ''.gitignore'')),
                templateFile' templateDirBase ''README.md.ejs'' None,
                emit (SpinnerStart (''Installing dependencies via '' @ packageManager options @ ''...'')),
                on_files (execa E (packageManager options) [''install''] targetDir),
                emit (SpinnerStop ''Installed dependencies''),
                run_if (warnings options \<noteq> []) (emit (LogWarn (join [CHR 0x0A] (warnings options)))),
                emit (Outro (outroText projectName options targetDir))]) w)"

section \<open>The command line's action\<close>

datatype template = Typescript | Javascript | FileRouter

record cliOptions =
  cli_template :: template
  cli_tailwind :: bool
  cli_packageManager :: string
  cli_addOns :: bool

text \<open>
  The options \<^verbatim>\<open>createApp\<close> is called with, or the error the action throws before
  the call:
  \<^verbatim>\<open>
  if (options.addOns) {
    if (options.template !== 'file-router') {
      throw new InvalidArgumentError('Add-ons are only available for the file-router template')
    }
    options.tailwind = true
  }
  \<close>
\<close>

definition actionOptions :: "cliOptions \<Rightarrow> error + Options" where
  "actionOptions cli =
     (if cli_addOns cli \<and> cli_template cli \<noteq> FileRouter
      then Inl (InvalidArgumentError ''Add-ons are only available for the file-router template'')
      else
        let cli' = (if cli_addOns cli then cli\<lparr>cli_tailwind := True\<rparr> else cli)
        in Inr \<lparr> typescript = (cli_template cli' = Typescript \<or> cli_template cli' = FileRouter),
                 tailwind = cli_tailwind cli',
                 packageManager = cli_packageManager cli',
                 mode = (if cli_template cli' = FileRouter then FILE_ROUTER else CODE_ROUTER),
                 addOns = cli_addOns cli',
                 chosenAddOns = [] \<rparr>)"

definition action :: "externals \<Rightarrow> string \<Rightarrow> cliOptions \<Rightarrow> step" where
  "action E projectName cli w =
     (case actionOptions cli of
        Inl e \<Rightarrow> (Some e, w)
      | Inr options \<Rightarrow> createApp E projectName options w)"

section \<open>Notions the properties are stated with\<close>


text \<open>
  The properties of an absent or present section as a map, and what a well-formed
  section is: an object whose keys are distinct.
\<close>

definition props :: "jsobj option \<Rightarrow> string \<Rightarrow> string option" where
  "props c = (case c of None \<Rightarrow> Map.empty | Some obj \<Rightarrow> map_of obj)"

definition wf_section :: "jsobj option \<Rightarrow> bool" where
  "wf_section c = (case c of None \<Rightarrow> True | Some obj \<Rightarrow> wf_obj obj)"

text \<open>
  The contributions to each section of the manifest in merge order, as
  \<^verbatim>\<open>createPackageJSON\<close> takes them: the base first; the typed variant gives its
  \<^verbatim>\<open>devDependencies\<close> only, the styling and the routing variant their
  \<^verbatim>\<open>dependencies\<close> only, each when its option is set; then every add-on, in the order
  of the list, gives all three.
\<close>

definition dependency_contributions ::
  "bool \<Rightarrow> mode \<Rightarrow> 'a fragment_scheme \<Rightarrow> 'b fragment_scheme \<Rightarrow> 'b fragment_scheme \<Rightarrow> fragment list
     \<Rightarrow> jsobj option list" where
  "dependency_contributions tw_on md base tw fr additions =
     dependencies base # (if tw_on then [dependencies tw] else [])
       @ (if md = FILE_ROUTER then [dependencies fr] else []) @ map dependencies additions"

definition devDependency_contributions ::
  "bool \<Rightarrow> 'a fragment_scheme \<Rightarrow> 'b fragment_scheme \<Rightarrow> fragment list \<Rightarrow> jsobj option list" where
  "devDependency_contributions ts_on base ts additions =
     devDependencies base # (if ts_on then [devDependencies ts] else []) @ map devDependencies additions"

definition script_contributions :: "'a fragment_scheme \<Rightarrow> fragment list \<Rightarrow> jsobj option list" where
  "script_contributions base additions = scripts base # map scripts additions"

text \<open>
  \<open>last_writer cs j k v\<close>: contribution \<open>j\<close> gives key \<open>k\<close> the value \<open>v\<close> and no
  later contribution has the key.
\<close>

definition last_writer :: "jsobj option list \<Rightarrow> nat \<Rightarrow> string \<Rightarrow> string \<Rightarrow> bool" where
  "last_writer cs j k v =
     (j < length cs \<and> props (cs ! j) k = Some v \<and> list_all (\<lambda>c. props c k = None) (drop (Suc j) cs))"

text \<open>
  The keys of a section in the order in which \<^verbatim>\<open>JSON.stringify\<close> emits them, and in
  the order in which the object holds them; a section none of whose keys is an array
  index; and the order in which keys are first inserted.
\<close>

definition emitted_keys :: "jsobj option \<Rightarrow> string list" where
  "emitted_keys c = (case c of None \<Rightarrow> [] | Some obj \<Rightarrow> own_keys obj)"

definition plain_section :: "jsobj option \<Rightarrow> bool" where
  "plain_section c = (case c of None \<Rightarrow> True | Some obj \<Rightarrow> list_all (\<lambda>k. \<not> is_array_index k) (map fst obj))"

definition insertion_order :: "string list \<Rightarrow> string list \<Rightarrow> string list" where
  "insertion_order acc ks = foldl (\<lambda>acc k. if k \<in> set acc then acc else acc @ [k]) acc ks"

definition section_keys :: "jsobj option \<Rightarrow> string list" where
  "section_keys c = (case c of None \<Rightarrow> [] | Some obj \<Rightarrow> map fst obj)"

text \<open>
  The order in which the chosen add-ons are to be taken: those of phase \<^verbatim>\<open>setup\<close> in
  the order of the selection, then those of phase \<^verbatim>\<open>add-on\<close> in the order of the
  selection.
\<close>

definition schedule :: "AddOn list \<Rightarrow> AddOn list" where
  "schedule chosen =
     filter (\<lambda>a. phase a = Setup) chosen @ filter (\<lambda>a. phase a = AddOnPhase) chosen"

text \<open>
  Composing the asset tree of one add-on, when it has one, and running its command,
  when it has one, on a file system.
\<close>

definition assets_composed :: "externals \<Rightarrow> string \<Rightarrow> Options \<Rightarrow> string \<Rightarrow> AddOn \<Rightarrow> step" where
  "assets_composed E projectName options targetDir a =
     (case node_at (catalog E) (components (resolve (directory a) ''assets'')) of
        None \<Rightarrow> skip
      | Some n \<Rightarrow>
          copyFilesRecursively n (resolve (directory a) ''assets'') targetDir
            (\<lambda>src dest. on_files (copyFile (catalog E) src dest))
            (\<lambda>file targetFileName.
               templateFile E projectName options targetDir (resolve (directory a) ''assets'')
                 file targetFileName))"

definition post_command :: "externals \<Rightarrow> string \<Rightarrow> AddOn \<Rightarrow> fs \<Rightarrow> error + fs" where
  "post_command E targetDir a f =
     (case command a of
        None \<Rightarrow> Inr f
      | Some c \<Rightarrow> execa E (fst c) (case snd c of None \<Rightarrow> [] | Some args \<Rightarrow> args) targetDir f)"

text \<open>
  The add-ons of a list taken one after the other, as the specification orders the work
  on one add-on: the spinner starts; the asset tree is composed; the command runs on the
  file system the composing has left; the spinner stops; and the next add-on starts from
  the file system the command has left. An error ends the sequence with the state at
  that moment.
\<close>

definition begun :: "AddOn \<Rightarrow> world \<Rightarrow> world" where
  "begun a w = w\<lparr>trace := trace w @ [SpinnerStart (''Setting up '' @ addOn_name a @ ''...'')]\<rparr>"

definition finished :: "AddOn \<Rightarrow> fs \<Rightarrow> world \<Rightarrow> world" where
  "finished a f w = w\<lparr>files := f, trace := trace w @ [SpinnerStop (addOn_name a @ '' setup complete'')]\<rparr>"

fun one_after_the_other ::
  "externals \<Rightarrow> string \<Rightarrow> Options \<Rightarrow> string \<Rightarrow> AddOn list \<Rightarrow> world \<Rightarrow> error option \<times> world" where
  "one_after_the_other E projectName options targetDir [] w = (None, w)"
| "one_after_the_other E projectName options targetDir (a # rest) w =
     (case assets_composed E projectName options targetDir a (begun a w) of
        (Some e, w1) \<Rightarrow> (Some e, w1)
      | (None, w1) \<Rightarrow>
          (case post_command E targetDir a (files w1) of
             Inl e \<Rightarrow> (Some e, w1)
           | Inr f \<Rightarrow> one_after_the_other E projectName options targetDir rest (finished a f w1)))"

text \<open>The spinner's messages for one add-on.\<close>

definition addOn_events :: "AddOn \<Rightarrow> event list" where
  "addOn_events a =
     [SpinnerStart (''Setting up '' @ addOn_name a @ ''...''),
      SpinnerStop (addOn_name a @ '' setup complete'')]"

text \<open>
  \<open>emits s evs\<close>: whatever the state, the step \<open>s\<close> adds to the trace a prefix of
  \<open>evs\<close>, and all of \<open>evs\<close> when it does not fail.
\<close>

definition emits :: "step \<Rightarrow> event list \<Rightarrow> bool" where
  "emits s evs =
     (\<forall>w r w'. s w = (r, w') \<longrightarrow>
        (\<exists>tr. trace w' = trace w @ tr \<and> prefix tr evs \<and> (r = None \<longrightarrow> tr = evs)))"

section \<open>Example inputs\<close>

text \<open>
  A small catalog with the base template, the two router templates and two add-ons,
  \<open>alpha\<close> of phase \<^verbatim>\<open>add-on\<close> and \<open>beta\<close> of phase \<^verbatim>\<open>setup\<close>; libraries that
  render a template to itself, format by dropping semicolons, run \<^verbatim>\<open>cp\<close> as the copy
  of a file of the working directory and every other command without effect, and print
  a manifest as its name and the names of its dependencies; an empty file system.
\<close>

definition demo_execa :: "string \<Rightarrow> string list \<Rightarrow> string \<Rightarrow> fs \<Rightarrow> error + fs" where
  "demo_execa c args dir f =
     (if c = ''cp'' then
        (case args of
           [src, dst] \<Rightarrow>
             (case f (components (resolve dir src)) of
                Some (FileE content) \<Rightarrow> writeFile (resolve dir dst) content f
              | _ \<Rightarrow> Inl (CommandFailure ''cp: cannot stat''))
         | _ \<Rightarrow> Inl (CommandFailure ''cp: missing operand''))
      else Inr f)"

definition demo_base :: node where
  "demo_base = Dir
     [(''.vscode'', Dir [(''settings.json'', File ''{}'')]),
      (''public'', Dir [(''robots.txt'', File ''r''), (''favicon.ico'', File ''f''),
                        (''manifest.json'', File ''m''), (''logo192.png'', File ''l1''),
                        (''logo512.png'', File ''l5'')]),
      (''src'', Dir [(''App.css'', File ''css''), (''styles.css.ejs'', File ''styles''),
                     (''logo.svg'', File ''svg''), (''App.tsx.ejs'', File ''app;''),
                     (''App.test.tsx.ejs'', File ''test;''),
                     (''reportWebVitals.ts.ejs'', File ''vitals;'')]),
      (''vite.config.js.ejs'', File ''vite;''),
      (''index.html.ejs'', File ''html''),
      (''tsconfig.json.ejs'', File ''tsconfig''),
      (''package.json'', File ''base''),
      (''package.ts.json'', File ''ts''),
      (''package.tw.json'', File ''tw''),
      (''gitignore'', File ''node_modules''),
      (''README.md.ejs'', File ''readme'')]"

definition demo_catalog :: node where
  "demo_catalog = Dir
     [(''pkg'', Dir
        [(''templates'', Dir
           [(''base'', demo_base),
            (''code-router'', Dir [(''src'', Dir [(''main.tsx.ejs'', File ''main;'')])]),
            (''file-router'', Dir
               [(''src'', Dir
                  [(''components'', Dir [(''Header.tsx.ejs'', File ''header;'')]),
                   (''routes'', Dir [(''__root.tsx.ejs'', File ''root;'')]),
                   (''main.tsx.ejs'', File ''main;'')]),
                (''package.fr.json'', File ''fr'')]),
            (''add-ons'', Dir
               [(''alpha'', Dir [(''assets'', Dir [(''notes.md.append'', File ''from alpha'')])]),
                (''beta'', Dir [(''assets'', Dir [(''notes.md'', File ''from beta;'')])])])])])]"

definition demo_alpha :: AddOn where
  "demo_alpha = \<lparr> addOn_id = ''alpha'', addOn_name = ''Alpha'', description = ''feature'',
       directory = ''/pkg/templates/add-ons/alpha'',
       packageAdditions = \<lparr> dependencies = None,
                            devDependencies = Some [(''bar'', ''^2.0.0'')], scripts = None \<rparr>,
       command = None, phase = AddOnPhase, shadcnComponents = None, warning = None \<rparr>"

definition demo_beta :: AddOn where
  "demo_beta = \<lparr> addOn_id = ''beta'', addOn_name = ''Beta'', description = ''infrastructure'',
       directory = ''/pkg/templates/add-ons/beta'',
       packageAdditions = \<lparr> dependencies = Some [(''foo'', ''^1.0.0'')],
                            devDependencies = None, scripts = None \<rparr>,
       command = Some (''cp'', Some [''notes.md'', ''notes.bak'']), phase = Setup,
       shadcnComponents = None, warning = None \<rparr>"

definition demo_parse :: "string \<Rightarrow> error + packageJSON" where
  "demo_parse t =
     (if t = ''base'' then
        Inr \<lparr> dependencies = Some [(''react'', ''^19.0.0'')],
              devDependencies = Some [(''vite'', ''^6.0.0'')],
              scripts = Some [(''start'', ''vite'')], name = Some ''template'' \<rparr>
      else if t = ''ts'' then
        Inr \<lparr> dependencies = None, devDependencies = Some [(''typescript'', ''^5.0.0'')],
              scripts = None, name = None \<rparr>
      else if t = ''tw'' then
        Inr \<lparr> dependencies = Some [(''tailwindcss'', ''^4.0.0'')], devDependencies = None,
              scripts = None, name = None \<rparr>
      else if t = ''fr'' then
        Inr \<lparr> dependencies = Some [(''@tanstack/router-plugin'', ''^1.0.0'')],
              devDependencies = None, scripts = None, name = None \<rparr>
      else Inl (TypeError ''Unexpected token''))"

definition demo_externals :: externals where
  "demo_externals =
     \<lparr> cwd = ''/home'', templatesDir = ''/pkg/templates'', catalog = demo_catalog,
       render = (\<lambda>t v. Inr t),
       format = (\<lambda>c opts. Inr (filter (\<lambda>x. x \<noteq> CHR '';'') c)),
       execa = demo_execa,
       JSON_parse = demo_parse,
       JSON_stringify = (\<lambda>pj. (case name pj of None \<Rightarrow> [] | Some n \<Rightarrow> n) @ '':''
           @ join '','' (own_keys (case dependencies pj of None \<Rightarrow> [] | Some d \<Rightarrow> d))),
       getAllAddOns = Inr [demo_alpha, demo_beta],
       selected = [''beta'', ''alpha''] \<rparr>"

definition demo_world :: world where
  "demo_world = \<lparr> files = Map.empty, trace = [] \<rparr>"

definition demo_options :: Options where
  "demo_options = \<lparr> typescript = True, tailwind = True, packageManager = ''npm'',
       mode = FILE_ROUTER, addOns = True, chosenAddOns = [] \<rparr>"

definition demo_plain :: Options where
  "demo_plain = \<lparr> typescript = True, tailwind = False, packageManager = ''npm'',
       mode = CODE_ROUTER, addOns = False, chosenAddOns = [] \<rparr>"

definition demo_world_existing :: world where
  "demo_world_existing =
     \<lparr> files = [[''home''] \<mapsto> DirE, [''home'', ''demo''] \<mapsto> DirE], trace = [] \<rparr>"

definition demo_cli :: cliOptions where
  "demo_cli = \<lparr> cli_template = FileRouter, cli_tailwind = False,
                 cli_packageManager = ''npm'', cli_addOns = True \<rparr>"

text \<open>
  Manifests whose fragments collide, and one with a dependency and a script whose names
  are numbers.
\<close>

definition cx_base :: packageJSON where
  "cx_base = \<lparr> dependencies = Some [(''react'', ''^18.0.0''), (''zod'', ''^3.0.0'')],
       devDependencies = Some [(''vite'', ''^5.0.0'')],
       scripts = Some [(''start'', ''vite''), (''build'', ''tsc'')],
       name = Some ''template'' \<rparr>"

definition cx_variant :: packageJSON where
  "cx_variant = \<lparr> dependencies = Some [(''react'', ''^19.0.0''), (''tslib'', ''^2.0.0'')],
       devDependencies = Some [(''vite'', ''^6.0.0''), (''typescript'', ''^5.0.0'')],
       scripts = Some [(''start'', ''other''), (''typecheck'', ''tsc'')],
       name = None \<rparr>"

definition cx_addOn1 :: fragment where
  "cx_addOn1 = \<lparr> dependencies = Some [(''react'', ''^19.1.0'')], devDependencies = None,
       scripts = Some [(''start'', ''vinxi'')] \<rparr>"

definition cx_addOn2 :: fragment where
  "cx_addOn2 = \<lparr> dependencies = Some [(''foo'', ''^1.0.0'')],
       devDependencies = Some [(''bar'', ''^2.0.0'')], scripts = None \<rparr>"

definition idx_base :: packageJSON where
  "idx_base = \<lparr> dependencies = Some [(''10'', ''1.0.0''), (''9'', ''2.0.0'')],
       devDependencies = Some [],
       scripts = Some [(''build'', ''tsc''), (''1'', ''echo'')], name = None \<rparr>"

definition cx_result :: packageJSON where
  "cx_result = \<lparr> dependencies = Some [(''foo'', ''^1.0.0''), (''react'', ''^19.1.0''), (''zod'', ''^3.0.0'')],
       devDependencies = Some [(''bar'', ''^2.0.0''), (''typescript'', ''^5.0.0''), (''vite'', ''^6.0.0'')],
       scripts = Some [(''start'', ''vinxi''), (''build'', ''tsc'')],
       name = Some ''demo'' \<rparr>"

definition cx_result_typed :: packageJSON where
  "cx_result_typed = \<lparr> dependencies = Some [(''react'', ''^18.0.0''), (''zod'', ''^3.0.0'')],
       devDependencies = Some [(''typescript'', ''^5.0.0''), (''vite'', ''^6.0.0'')],
       scripts = Some [(''start'', ''vite''), (''build'', ''tsc'')],
       name = Some ''demo'' \<rparr>"

definition idx_result :: packageJSON where
  "idx_result = \<lparr> dependencies = Some [(''10'', ''1.0.0''), (''9'', ''2.0.0'')],
       devDependencies = Some [],
       scripts = Some [(''build'', ''tsc''), (''1'', ''echo'')], name = Some ''demo'' \<rparr>"

definition demo_assets :: node where
  "demo_assets = Dir [(''notes.md.append'', File ''from alpha'')]"

definition demo_externals_failing :: externals where
  "demo_externals_failing = demo_externals\<lparr>format := (\<lambda>c opts. Inl (FormatFailure ''Unexpected token (1:4)''))\<rparr>"

definition demo_ctx :: Options where
  "demo_ctx = demo_options\<lparr>chosenAddOns := [demo_alpha, demo_beta]\<rparr>"

section \<open>Sequences of steps\<close>

lemma steps_None_last:
  "steps xs w = (None, w') \<Longrightarrow> xs \<noteq> [] \<Longrightarrow> last xs = emit ev
     \<Longrightarrow> trace w' \<noteq> [] \<and> last (trace w') = ev"
proof (induction xs arbitrary: w)
  case Nil
  then show ?case by simp
next
  case (Cons a rest)
  show ?case
  proof (cases "rest = []")
    case True
    with Cons.prems show ?thesis
      by (auto simp: seq_def emit_def split: prod.splits option.splits)
  next
    case False
    from Cons.prems(1) obtain w1 where a: "a w = (None, w1)" and r: "steps rest w1 = (None, w')"
      by (auto simp: seq_def split: prod.splits option.splits)
    from Cons.prems(3) False have "last rest = emit ev" by simp
    from Cons.IH[OF r False this] show ?thesis .
  qed
qed

section \<open>The configuration check and the pre-flight check\<close>

text \<open>
  Claim C4. When add-ons are requested and the template is not \<^verbatim>\<open>file-router\<close>, the
  action throws its \<^verbatim>\<open>InvalidArgumentError\<close> and leaves the state as it found it:
  no directory and no file has been created, nothing has been shown.
\<close>

theorem action_rejects_addOns_without_file_router:
  assumes "cli_addOns cli" and "cli_template cli \<noteq> FileRouter"
  shows "action E projectName cli w =
           (Some (InvalidArgumentError ''Add-ons are only available for the file-router template''), w)"
  using assms by (simp add: action_def actionOptions_def)

theorem action_rejects_addOns_without_file_router_witness:
  "cli_addOns (demo_cli\<lparr>cli_template := Typescript\<rparr>)
   \<and> cli_template (demo_cli\<lparr>cli_template := Typescript\<rparr>) \<noteq> FileRouter
   \<and> action demo_externals ''demo'' (demo_cli\<lparr>cli_template := Typescript\<rparr>) demo_world =
       (Some (InvalidArgumentError ''Add-ons are only available for the file-router template''),
        demo_world)"
  using action_rejects_addOns_without_file_router
    [of "demo_cli\<lparr>cli_template := Typescript\<rparr>" demo_externals "''demo''" demo_world]
  by (simp add: demo_cli_def)

text \<open>
  Every return of \<^verbatim>\<open>createApp\<close> without an error from a state in which the target
  does not exist is a completed run: its last output is the closing message.
\<close>

lemma createApp_no_other_abort:
  assumes ne: "\<not> existsSync (files w) (resolve (cwd E) projectName)"
    and run: "createApp E projectName options w = (None, w')"
  shows "\<exists>options'. withChosenAddOns E options = Inr options' \<and> trace w' \<noteq> []
           \<and> last (trace w') = Outro (outroText projectName options' (resolve (cwd E) projectName))"
proof -
  from ne run obtain options' where o: "withChosenAddOns E options = Inr options'"
    by (cases "withChosenAddOns E options") (auto simp: createApp_def try_val_def Let_def)
  have "trace w' \<noteq> []
      \<and> last (trace w') = Outro (outroText projectName options' (resolve (cwd E) projectName))"
    using run unfolding createApp_def Let_def try_val_def
    apply (simp only: ne if_False o sum.case)
    apply (erule steps_None_last)
     apply simp
    apply simp
    done
  with o show ?thesis by blast
qed

text \<open>
  Claim C5. When the target directory exists at the pre-flight check, \<^verbatim>\<open>createApp\<close>
  returns without an error after logging that the directory exists, and the files are
  those it started with. It is the only return without an error that is not a
  completed run.
\<close>

theorem createApp_aborts_only_on_existing_target:
  "(existsSync (files w) (resolve (cwd E) projectName) \<longrightarrow>
      createApp E projectName options w =
        (None, w\<lparr>trace := trace w @
           [LogError (''Directory '' @ [CHR 0x22] @ projectName @ [CHR 0x22] @ '' already exists'')]\<rparr>))
   \<and> (\<not> existsSync (files w) (resolve (cwd E) projectName)
        \<and> createApp E projectName options w = (None, w') \<longrightarrow>
      (\<exists>options'. withChosenAddOns E options = Inr options' \<and> trace w' \<noteq> []
         \<and> last (trace w') = Outro (outroText projectName options' (resolve (cwd E) projectName))))"
proof (intro conjI impI)
  assume "existsSync (files w) (resolve (cwd E) projectName)"
  then show "createApp E projectName options w =
        (None, w\<lparr>trace := trace w @
           [LogError (''Directory '' @ [CHR 0x22] @ projectName @ [CHR 0x22] @ '' already exists'')]\<rparr>)"
    by (simp add: createApp_def emit_def)
next
  assume "\<not> existsSync (files w) (resolve (cwd E) projectName)
        \<and> createApp E projectName options w = (None, w')"
  then show "\<exists>options'. withChosenAddOns E options = Inr options' \<and> trace w' \<noteq> []
         \<and> last (trace w') = Outro (outroText projectName options' (resolve (cwd E) projectName))"
    using createApp_no_other_abort by blast
qed

lemma demo_plain_run: "fst (createApp demo_externals ''demo'' demo_plain demo_world) = None"
  by code_simp

theorem createApp_aborts_only_on_existing_target_witness:
  "existsSync (files demo_world_existing) (resolve (cwd demo_externals) ''demo'')
   \<and> createApp demo_externals ''demo'' demo_options demo_world_existing =
       (None, demo_world_existing\<lparr>trace := trace demo_world_existing @
          [LogError (''Directory '' @ [CHR 0x22] @ ''demo'' @ [CHR 0x22] @ '' already exists'')]\<rparr>)
   \<and> \<not> existsSync (files demo_world) (resolve (cwd demo_externals) ''demo'')
   \<and> fst (createApp demo_externals ''demo'' demo_plain demo_world) = None
   \<and> last (trace (snd (createApp demo_externals ''demo'' demo_plain demo_world)))
       = Outro (outroText ''demo'' demo_plain (resolve (cwd demo_externals) ''demo''))"
proof -
  note t = createApp_aborts_only_on_existing_target
  have e: "existsSync (files demo_world_existing) (resolve (cwd demo_externals) ''demo'')"
    by (simp add: existsSync_def demo_world_existing_def demo_externals_def resolve_def
        components_def norm_step_def path_str_def)
  note a = t [THEN conjunct1, THEN mp, OF e]
  have n: "\<not> existsSync (files demo_world) (resolve (cwd demo_externals) ''demo'')"
    by (simp add: existsSync_def demo_world_def demo_externals_def resolve_def
        components_def norm_step_def path_str_def)
  let ?X = "createApp demo_externals ''demo'' demo_plain demo_world"
  have r: "fst ?X = None" by (rule demo_plain_run)
  then have eq: "?X = (None, snd ?X)" by (simp add: prod_eq_iff)
  have o: "withChosenAddOns demo_externals demo_plain = Inr demo_plain"
    by (simp add: withChosenAddOns_def demo_plain_def)
  from t [THEN conjunct2, THEN mp, OF conjI [OF n eq]] o
  have l: "last (trace (snd ?X)) = Outro (outroText ''demo'' demo_plain (resolve (cwd demo_externals) ''demo''))"
    by auto
  from e a n r l show ?thesis by (intro conjI)
qed

text \<open>
  Claim C10. The options the action passes on have \<^verbatim>\<open>tailwind\<close> set whenever add-ons
  were requested, whatever \<^verbatim>\<open>--tailwind\<close> said; add-ons are chosen only then, so a
  context with a chosen add-on has \<^verbatim>\<open>tailwind\<close> set.
\<close>

theorem addOns_force_tailwind:
  assumes "actionOptions cli = Inr options" and "withChosenAddOns E options = Inr ctx"
  shows "(cli_addOns cli \<longrightarrow> tailwind options \<and> tailwind ctx)
       \<and> (chosenAddOns ctx \<noteq> [] \<longrightarrow> cli_addOns cli \<and> tailwind ctx)"
  using assms
  by (auto simp: actionOptions_def withChosenAddOns_def Let_def split: if_splits sum.splits)

theorem addOns_force_tailwind_witness:
  "actionOptions demo_cli = Inr demo_options
   \<and> withChosenAddOns demo_externals demo_options
       = Inr (demo_options\<lparr>chosenAddOns := [demo_alpha, demo_beta]\<rparr>)
   \<and> \<not> cli_tailwind demo_cli \<and> cli_addOns demo_cli
   \<and> chosenAddOns (demo_options\<lparr>chosenAddOns := [demo_alpha, demo_beta]\<rparr>) \<noteq> []
   \<and> tailwind demo_options
   \<and> tailwind (demo_options\<lparr>chosenAddOns := [demo_alpha, demo_beta]\<rparr>)"
proof -
  have a: "actionOptions demo_cli = Inr demo_options"
    by (simp add: actionOptions_def demo_cli_def demo_options_def)
  have b: "withChosenAddOns demo_externals demo_options
             = Inr (demo_options\<lparr>chosenAddOns := [demo_alpha, demo_beta]\<rparr>)"
    by (simp add: withChosenAddOns_def demo_options_def demo_externals_def pickAddOns_def
        demo_alpha_def demo_beta_def)
  from a b addOns_force_tailwind [OF a b] show ?thesis by (simp add: demo_cli_def)
qed

section \<open>Stripping a qualifier\<close>

lemma remove_first_absent: "\<not> sublist q s \<Longrightarrow> remove_first q s = s"
proof (induction s)
  case Nil
  then show ?case by simp
next
  case (Cons c cs)
  from Cons.prems have np: "\<not> prefix q (c # cs)" and ns: "\<not> sublist q cs"
    by (auto simp: sublist_Cons_right)
  from Cons.IH[OF ns] np show ?case by simp
qed




section \<open>Objects: lookup after spread and after sorting\<close>

lemma map_of_set_prop: "map_of (set_prop obj k v) = (map_of obj)(k \<mapsto> v)"
  by (simp add: set_prop_def update_conv')

lemma wf_set_prop: "wf_obj obj \<Longrightarrow> wf_obj (set_prop obj k v)"
  by (simp add: set_prop_def wf_obj_def distinct_update)

lemma set_own_entries: "set (own_entries obj) = set obj"
  by (auto simp: own_entries_def)

lemma wf_own_entries: "wf_obj obj \<Longrightarrow> distinct (map fst (own_entries obj))"
proof -
  assume "wf_obj obj"
  then have d: "distinct obj" and i: "inj_on fst (set obj)"
    by (simp_all add: wf_obj_def distinct_map)
  from d have "distinct (own_entries obj)"
    by (auto simp: own_entries_def)
  with i show ?thesis by (simp add: distinct_map set_own_entries)
qed

lemma map_of_own_entries:
  assumes "wf_obj obj"
  shows "map_of (own_entries obj) = map_of obj"
proof (rule map_of_inject_set [THEN iffD2])
  show "distinct (map fst (own_entries obj))" using assms by (rule wf_own_entries)
  show "distinct (map fst obj)" using assms by (simp add: wf_obj_def)
  show "set (own_entries obj) = set obj" by (rule set_own_entries)
qed

lemma map_of_foldl_set_prop:
  "map_of (foldl (\<lambda>acc p. set_prop acc (fst p) (snd p)) t es) = map_of t ++ map_of (rev es)"
proof (induction es arbitrary: t)
  case Nil
  show ?case by simp
next
  case (Cons e es)
  show ?case
    by (rule ext) (simp add: Cons.IH map_of_set_prop map_add_def split: option.splits)
qed

lemma map_of_rev_distinct: "distinct (map fst es) \<Longrightarrow> map_of (rev es) = map_of es"
  by (rule map_of_inject_set [THEN iffD2]) (simp_all add: rev_map [symmetric])

lemma map_of_copy_props: "wf_obj src \<Longrightarrow> map_of (copy_props t src) = map_of t ++ map_of src"
  by (simp add: copy_props_def map_of_foldl_set_prop map_of_rev_distinct wf_own_entries
      map_of_own_entries)

lemma wf_foldl_set_prop: "wf_obj t \<Longrightarrow> wf_obj (foldl (\<lambda>acc p. set_prop acc (fst p) (snd p)) t es)"
  by (induction es arbitrary: t) (simp_all add: wf_set_prop)

lemma wf_spread2: "wf_obj (spread2 a b)"
proof -
  have e: "wf_obj []" by (simp add: wf_obj_def)
  have "\<And>t c. wf_obj t \<Longrightarrow> wf_obj (spread_into t c)"
    by (case_tac c) (simp_all add: copy_props_def wf_foldl_set_prop)
  with e show ?thesis by (simp add: spread2_def)
qed

lemma props_spread_into:
  "wf_section c \<Longrightarrow> map_of (spread_into t c) = map_of t ++ props c"
  by (cases c) (simp_all add: props_def wf_section_def map_of_copy_props)

lemma props_spread2:
  "wf_section a \<Longrightarrow> wf_section b \<Longrightarrow> props (Some (spread2 a b)) = props a ++ props b"
proof -
  assume a: "wf_section a" and b: "wf_section b"
  have "map_of (spread2 a b) = (map_of [] ++ props a) ++ props b"
    by (simp only: spread2_def props_spread_into [OF a] props_spread_into [OF b])
  then show ?thesis by (simp add: props_def)
qed

lemma set_own_keys: "set (own_keys obj) = fst ` set obj"
  by (simp add: own_keys_def set_own_entries)

lemma map_of_foldl_assign:
  "map_of (foldl (\<lambda>acc key. case map_of obj key of Some v \<Rightarrow> js_assign acc key v | None \<Rightarrow> acc) acc0 ks) k
     = (if k \<in> set ks \<and> k \<noteq> ''__proto__'' \<and> map_of obj k \<noteq> None then map_of obj k else map_of acc0 k)"
proof (induction ks arbitrary: acc0)
  case Nil
  show ?case by simp
next
  case (Cons x ks)
  show ?case
    by (cases "map_of obj x") (auto simp: Cons.IH js_assign_def map_of_set_prop)
qed

lemma map_of_sortObject:
  "map_of (sortObject obj) k = (if k = ''__proto__'' then None else map_of obj k)"
proof -
  have "k \<notin> fst ` set obj \<Longrightarrow> map_of obj k = None" by (simp add: map_of_eq_None_iff)
  then show ?thesis
    by (auto simp: sortObject_def map_of_foldl_assign set_own_keys)
qed

lemma last_writer_foldl:
  fixes ms :: "(string \<Rightarrow> string option) list"
  shows "j < length ms \<Longrightarrow> (ms ! j) k = Some v \<Longrightarrow> list_all (\<lambda>m. m k = None) (drop (Suc j) ms)
     \<Longrightarrow> foldl (++) m0 ms k = Some v"
proof (induction ms arbitrary: j rule: rev_induct)
  case Nil
  then show ?case by simp
next
  case (snoc m ms)
  show ?case
  proof (cases "j < length ms")
    case True
    with snoc.prems have "m k = None" and "(ms ! j) k = Some v"
      and "list_all (\<lambda>m. m k = None) (drop (Suc j) ms)"
      by (simp_all add: nth_append)
    with snoc.IH [OF True] show ?thesis by (simp add: map_add_def)
  next
    case False
    with snoc.prems have "j = length ms" by simp
    with snoc.prems show ?thesis by (simp add: map_add_def)
  qed
qed

lemma update_fresh: "k \<notin> fst ` set al \<Longrightarrow> AList.update k v al = al @ [(k, v)]"
  by (induction al) auto

lemma foldl_assign_fresh:
  assumes "distinct ks" and "set ks \<inter> fst ` set acc = {}" and "\<forall>k\<in>set ks. map_of obj k \<noteq> None"
  shows "foldl (\<lambda>acc key. case map_of obj key of Some v \<Rightarrow> js_assign acc key v | None \<Rightarrow> acc) acc ks
           = acc @ map (\<lambda>k. (k, the (map_of obj k))) (filter (\<lambda>k. k \<noteq> ''__proto__'') ks)"
  using assms
proof (induction ks arbitrary: acc)
  case Nil
  show ?case by simp
next
  case (Cons x ks)
  from Cons.prems obtain v where v: "map_of obj x = Some v" by auto
  let ?acc' = "js_assign acc x v"
  have k: "set ks \<inter> fst ` set ?acc' = {}"
    using Cons.prems by (auto simp: js_assign_def set_prop_def update_fresh)
  from Cons.prems have "distinct ks" and "\<forall>k\<in>set ks. map_of obj k \<noteq> None" by simp_all
  from Cons.IH [OF this(1) k this(2)] v Cons.prems show ?case
    by (auto simp: js_assign_def set_prop_def update_fresh)
qed

lemma own_keys_plain:
  "list_all (\<lambda>k. \<not> is_array_index k) (map fst obj) \<Longrightarrow> own_keys obj = map fst obj"
  by (simp add: own_keys_def own_entries_def list_all_iff filter_empty_conv [THEN iffD2])

lemma sortObject_lexicographic:
  assumes wf: "wf_obj obj" and plain: "list_all (\<lambda>k. \<not> is_array_index k) (map fst obj)"
  shows "own_keys (sortObject obj) = filter (\<lambda>k. k \<noteq> ''__proto__'') (sort (map fst obj))"
    and "sorted_wrt (<) (own_keys (sortObject obj))"
proof -
  let ?ks = "sort (map fst obj)"
  have ok: "own_keys obj = map fst obj" using plain by (rule own_keys_plain)
  have d: "distinct ?ks" using wf by (simp add: wf_obj_def)
  have n: "\<forall>k\<in>set ?ks. map_of obj k \<noteq> None"
    by (auto simp: map_of_eq_None_iff)
  have s: "sortObject obj = map (\<lambda>k. (k, the (map_of obj k))) (filter (\<lambda>k. k \<noteq> ''__proto__'') ?ks)"
    using foldl_assign_fresh [OF d _ n, of "[]"] by (simp add: sortObject_def ok)
  have "list_all (\<lambda>k. \<not> is_array_index k) (map fst (sortObject obj))"
    using plain by (auto simp: s list_all_iff comp_def)
  then have "own_keys (sortObject obj) = map fst (sortObject obj)" by (rule own_keys_plain)
  then show e: "own_keys (sortObject obj) = filter (\<lambda>k. k \<noteq> ''__proto__'') ?ks"
    by (simp add: s comp_def)
  have "sorted_wrt (<) ?ks" using d by (simp add: strict_sorted_iff)
  then show "sorted_wrt (<) (own_keys (sortObject obj))"
    unfolding e by (rule sorted_wrt_filter)
qed

lemma wf_foldl_spread:
  "wf_section c0 \<Longrightarrow> wf_section (foldl (\<lambda>cur c. Some (spread2 cur c)) c0 cs)"
proof (induction cs arbitrary: c0)
  case Nil
  then show ?case by simp
next
  case (Cons c cs)
  have "wf_section (Some (spread2 c0 c))" by (simp add: wf_section_def wf_spread2)
  from Cons.IH [OF this] show ?case by simp
qed

lemma keys_set_prop:
  "map fst (set_prop obj k v) = (if k \<in> set (map fst obj) then map fst obj else map fst obj @ [k])"
  by (simp add: set_prop_def update_keys)

lemma keys_foldl_set_prop:
  "map fst (foldl (\<lambda>acc p. set_prop acc (fst p) (snd p)) t es) = insertion_order (map fst t) (map fst es)"
  unfolding insertion_order_def
  by (induction es arbitrary: t) (simp_all add: keys_set_prop)

lemma insertion_order_distinct:
  "distinct ks \<Longrightarrow> set acc \<inter> set ks = {} \<Longrightarrow> insertion_order acc ks = acc @ ks"
  unfolding insertion_order_def
  by (induction ks arbitrary: acc) auto

lemma insertion_order_append:
  "insertion_order acc (xs @ ys) = insertion_order (insertion_order acc xs) ys"
  by (simp add: insertion_order_def)

lemma plain_own_entries:
  "list_all (\<lambda>k. \<not> is_array_index k) (map fst obj) \<Longrightarrow> own_entries obj = obj"
  by (simp add: own_entries_def list_all_iff filter_empty_conv [THEN iffD2])

lemma keys_spread_into:
  assumes "plain_section c" and "wf_section c"
  shows "map fst (spread_into t c) = insertion_order (map fst t) (section_keys c)"
proof (cases c)
  case None
  then show ?thesis by (simp add: section_keys_def insertion_order_def)
next
  case (Some obj)
  with assms have "own_entries obj = obj" by (simp add: plain_section_def plain_own_entries)
  with Some show ?thesis
    by (simp add: copy_props_def keys_foldl_set_prop section_keys_def)
qed

lemma keys_spread2:
  assumes "plain_section a" "wf_section a" "plain_section b" "wf_section b"
  shows "map fst (spread2 a b) = insertion_order (section_keys a) (section_keys b)"
proof -
  have "distinct (section_keys a)"
    using assms(2) by (cases a) (simp_all add: section_keys_def wf_section_def wf_obj_def)
  then have "insertion_order [] (section_keys a) = section_keys a"
    using insertion_order_distinct [of "section_keys a" "[]"] by simp
  then show ?thesis
    by (simp add: spread2_def keys_spread_into assms)
qed

lemma insertion_order_plain:
  "list_all (\<lambda>k. \<not> is_array_index k) acc \<Longrightarrow> list_all (\<lambda>k. \<not> is_array_index k) ks
     \<Longrightarrow> list_all (\<lambda>k. \<not> is_array_index k) (insertion_order acc ks)"
  unfolding insertion_order_def
  by (induction ks arbitrary: acc) simp_all

lemma plain_spread2:
  assumes "plain_section a" "wf_section a" "plain_section b" "wf_section b"
  shows "plain_section (Some (spread2 a b))"
proof -
  have "list_all (\<lambda>k. \<not> is_array_index k) (section_keys a)"
    "list_all (\<lambda>k. \<not> is_array_index k) (section_keys b)"
    using assms(1,3) by (simp_all add: plain_section_def section_keys_def split: option.splits)
  then show ?thesis
    by (simp add: plain_section_def keys_spread2 [OF assms] insertion_order_plain)
qed

lemma keys_foldl_spread:
  assumes "plain_section c0" "wf_section c0" "list_all plain_section cs" "list_all wf_section cs"
  shows "plain_section (foldl (\<lambda>cur c. Some (spread2 cur c)) c0 cs)
       \<and> section_keys (foldl (\<lambda>cur c. Some (spread2 cur c)) c0 cs)
           = insertion_order (section_keys c0) (concat (map section_keys cs))"
  using assms
proof (induction cs arbitrary: c0)
  case Nil
  then show ?case by (simp add: insertion_order_def)
next
  case (Cons c cs)
  let ?c1 = "Some (spread2 c0 c)"
  from Cons.prems have p: "plain_section ?c1" by (simp add: plain_spread2)
  have w: "wf_section ?c1" by (simp add: wf_section_def wf_spread2)
  from Cons.prems have k: "section_keys ?c1 = insertion_order (section_keys c0) (section_keys c)"
    by (simp add: section_keys_def keys_spread2)
  from Cons.IH [OF p w] Cons.prems k show ?case
    by (simp add: insertion_order_append)
qed

section \<open>The manifest\<close>

lemmas manifest_eval = builtPackageJSON_def mergedPackageJSON_def merge_typescript_def
  merge_tailwind_def merge_file_router_def merge_addOn_def sortSection_def sortObject_def
  js_assign_def set_prop_def spread2_def copy_props_def own_entries_def own_keys_def
  is_array_index_def is_digit_def num_val_def Let_def

lemma foldl_merge_addOn_name:
  "name (foldl merge_addOn p additions) = name p
   \<and> packageJSON.more (foldl merge_addOn p additions) = packageJSON.more p"
  by (induction additions arbitrary: p) (simp_all add: merge_addOn_def)

lemma mergedPackageJSON_name:
  "name (mergedPackageJSON projectName ts_on tw_on md base ts tw fr additions) = Some projectName
   \<and> packageJSON.more (mergedPackageJSON projectName ts_on tw_on md base ts tw fr additions)
       = packageJSON.more base"
  by (simp add: mergedPackageJSON_def Let_def foldl_merge_addOn_name merge_typescript_def
      merge_tailwind_def merge_file_router_def)

lemma builtPackageJSON_Inr:
  assumes "builtPackageJSON projectName ts_on tw_on md base ts tw fr additions = Inr pj"
  shows "\<exists>deps devDeps.
           dependencies (mergedPackageJSON projectName ts_on tw_on md base ts tw fr additions) = Some deps
         \<and> devDependencies (mergedPackageJSON projectName ts_on tw_on md base ts tw fr additions) = Some devDeps
         \<and> pj = (mergedPackageJSON projectName ts_on tw_on md base ts tw fr additions)
                  \<lparr>dependencies := Some (sortObject deps), devDependencies := Some (sortObject devDeps)\<rparr>"
proof -
  define m where "m = mergedPackageJSON projectName ts_on tw_on md base ts tw fr additions"
  from assms have b: "(case sortSection (dependencies m) of Inl e \<Rightarrow> Inl e
          | Inr deps \<Rightarrow> (case sortSection (devDependencies m) of Inl e \<Rightarrow> Inl e
              | Inr devDeps \<Rightarrow> Inr (m\<lparr>dependencies := Some deps, devDependencies := Some devDeps\<rparr>))) = Inr pj"
    unfolding builtPackageJSON_def Let_def m_def .
  then obtain deps where d: "dependencies m = Some deps"
    by (cases "dependencies m") (simp_all add: sortSection_def)
  from b d obtain devDeps where dd: "devDependencies m = Some devDeps"
    by (cases "devDependencies m") (simp_all add: sortSection_def)
  from b d dd have "pj = m\<lparr>dependencies := Some (sortObject deps), devDependencies := Some (sortObject devDeps)\<rparr>"
    by (simp add: sortSection_def)
  with d dd show ?thesis unfolding m_def by blast
qed

text \<open>
  Claim C8. The manifest \<^verbatim>\<open>createPackageJSON\<close> writes has the project name as its
  name, and the fields of the base template other than the name and the three sections
  as they were; each merge step leaves the name as it finds it.
\<close>

theorem manifest_name_is_project_name:
  "(builtPackageJSON projectName ts_on tw_on md base ts tw fr additions = Inr pj \<longrightarrow>
      name pj = Some projectName \<and> packageJSON.more pj = packageJSON.more base)
   \<and> name (merge_typescript pj0 ts) = name pj0
   \<and> name (merge_tailwind pj0 tw) = name pj0
   \<and> name (merge_file_router pj0 fr) = name pj0
   \<and> name (merge_addOn pj0 addOn) = name pj0
   \<and> name (foldl merge_addOn pj0 additions) = name pj0"
proof (intro conjI impI)
  assume "builtPackageJSON projectName ts_on tw_on md base ts tw fr additions = Inr pj"
  from builtPackageJSON_Inr [OF this] obtain deps devDeps where
    "pj = (mergedPackageJSON projectName ts_on tw_on md base ts tw fr additions)
                  \<lparr>dependencies := Some (sortObject deps), devDependencies := Some (sortObject devDeps)\<rparr>"
    by blast
  then show "name pj = Some projectName" "packageJSON.more pj = packageJSON.more base"
    by (simp_all add: mergedPackageJSON_name)
qed (simp_all add: merge_typescript_def merge_tailwind_def merge_file_router_def merge_addOn_def
      foldl_merge_addOn_name)

theorem manifest_name_is_project_name_witness:
  "builtPackageJSON ''demo'' True False CODE_ROUTER cx_base cx_variant cx_variant cx_variant
     [cx_addOn1, cx_addOn2] = Inr cx_result
   \<and> name cx_base = Some ''template''
   \<and> name cx_result = Some ''demo''
   \<and> packageJSON.more cx_result = packageJSON.more cx_base"
proof -
  have b: "builtPackageJSON ''demo'' True False CODE_ROUTER cx_base cx_variant cx_variant cx_variant
     [cx_addOn1, cx_addOn2] = Inr cx_result"
    by (simp add: manifest_eval cx_base_def cx_variant_def cx_addOn1_def cx_addOn2_def cx_result_def)
  note t = manifest_name_is_project_name [THEN conjunct1, THEN mp, OF b]
  from b t show ?thesis by (simp add: cx_base_def)
qed

lemma foldl_merge_addOn_sections:
  "dependencies (foldl merge_addOn p as)
     = foldl (\<lambda>cur c. Some (spread2 cur c)) (dependencies p) (map dependencies as)
   \<and> devDependencies (foldl merge_addOn p as)
     = foldl (\<lambda>cur c. Some (spread2 cur c)) (devDependencies p) (map devDependencies as)
   \<and> scripts (foldl merge_addOn p as)
     = foldl (\<lambda>cur c. Some (spread2 cur c)) (scripts p) (map scripts as)"
  by (induction as arbitrary: p) (simp_all add: merge_addOn_def)

lemma props_foldl_spread:
  "wf_section cur \<Longrightarrow> list_all wf_section cs \<Longrightarrow>
     props (foldl (\<lambda>cur c. Some (spread2 cur c)) cur cs) = foldl (++) (props cur) (map props cs)"
proof (induction cs arbitrary: cur)
  case Nil
  show ?case by simp
next
  case (Cons c cs)
  have w: "wf_section (Some (spread2 cur c))" by (simp add: wf_section_def wf_spread2)
  from Cons.prems have "props (Some (spread2 cur c)) = props cur ++ props c"
    by (simp add: props_spread2)
  with Cons.IH [OF w] Cons.prems show ?case by simp
qed

lemma merged_sections:
  "dependencies (mergedPackageJSON projectName ts_on tw_on md base ts tw fr additions)
     = foldl (\<lambda>cur c. Some (spread2 cur c)) (dependencies base)
         (tl (dependency_contributions tw_on md base tw fr additions))
   \<and> devDependencies (mergedPackageJSON projectName ts_on tw_on md base ts tw fr additions)
     = foldl (\<lambda>cur c. Some (spread2 cur c)) (devDependencies base)
         (tl (devDependency_contributions ts_on base ts additions))
   \<and> scripts (mergedPackageJSON projectName ts_on tw_on md base ts tw fr additions)
     = foldl (\<lambda>cur c. Some (spread2 cur c)) (scripts base)
         (tl (script_contributions base additions))"
  by (simp add: mergedPackageJSON_def Let_def foldl_merge_addOn_sections merge_typescript_def
      merge_tailwind_def merge_file_router_def dependency_contributions_def
      devDependency_contributions_def script_contributions_def)

lemma absent_foldl:
  fixes ms :: "(string \<Rightarrow> string option) list"
  shows "m0 k = None \<Longrightarrow> list_all (\<lambda>m. m k = None) ms \<Longrightarrow> foldl (++) m0 ms k = None"
  by (induction ms arbitrary: m0) (simp_all add: map_add_def)

lemma absent_section:
  assumes wf: "list_all wf_section (c0 # cs)" and ab: "list_all (\<lambda>c. props c k = None) (c0 # cs)"
  shows "props (foldl (\<lambda>cur c. Some (spread2 cur c)) c0 cs) k = None"
proof -
  from wf have "props (foldl (\<lambda>cur c. Some (spread2 cur c)) c0 cs)
      = foldl (++) (props c0) (map props cs)"
    by (simp add: props_foldl_spread)
  moreover from ab have "foldl (++) (props c0) (map props cs) k = None"
    by (intro absent_foldl) (simp_all add: list_all_iff)
  ultimately show ?thesis by simp
qed

lemma unmerged_sections_unused:
  "builtPackageJSON projectName ts_on tw_on md base
      (ts\<lparr>dependencies := d1, scripts := s1\<rparr>)
      (tw\<lparr>devDependencies := d2, scripts := s2\<rparr>)
      (fr\<lparr>devDependencies := d3, scripts := s3\<rparr>) additions
   = builtPackageJSON projectName ts_on tw_on md base ts tw fr additions"
proof -
  have m: "\<And>p. merge_typescript p (ts\<lparr>dependencies := d1, scripts := s1\<rparr>) = merge_typescript p ts"
    "\<And>p. merge_tailwind p (tw\<lparr>devDependencies := d2, scripts := s2\<rparr>) = merge_tailwind p tw"
    "\<And>p. merge_file_router p (fr\<lparr>devDependencies := d3, scripts := s3\<rparr>) = merge_file_router p fr"
    by (simp_all add: merge_typescript_def merge_tailwind_def merge_file_router_def)
  show ?thesis
    unfolding builtPackageJSON_def mergedPackageJSON_def m ..
qed

lemma last_writer_section:
  assumes wf: "list_all wf_section (c0 # cs)" and lw: "last_writer (c0 # cs) j k v"
  shows "props (foldl (\<lambda>cur c. Some (spread2 cur c)) c0 cs) k = Some v"
proof -
  from wf have "props (foldl (\<lambda>cur c. Some (spread2 cur c)) c0 cs)
      = foldl (++) (props c0) (map props cs)"
    by (simp add: props_foldl_spread)
  also have "\<dots> = foldl (++) Map.empty (map props (c0 # cs))" by simp
  finally have e: "props (foldl (\<lambda>cur c. Some (spread2 cur c)) c0 cs) k
      = foldl (++) Map.empty (map props (c0 # cs)) k" by simp
  from lw have "j < length (map props (c0 # cs))"
    and "(map props (c0 # cs) ! j) k = Some v"
    and "list_all (\<lambda>m. m k = None) (drop (Suc j) (map props (c0 # cs)))"
    by (simp_all add: last_writer_def drop_map list_all_iff del: list.map drop_Suc_Cons)
  from last_writer_foldl [OF this, where ?m0.0 = Map.empty] e show ?thesis by simp
qed

text \<open>
  When \<^verbatim>\<open>createPackageJSON\<close> returns: a section the base template lacks and no merge
  step creates is \<^verbatim>\<open>undefined\<close> when it is sorted, which throws; otherwise the
  manifest is built, and it is what is written.
\<close>

lemma foldl_spread_Some:
  "c \<noteq> None \<or> cs \<noteq> [] \<Longrightarrow> \<exists>y. foldl (\<lambda>cur c. Some (spread2 cur c)) c cs = Some y"
  by (induction cs arbitrary: c) auto

lemma builtPackageJSON_returns:
  assumes "dependencies base \<noteq> None \<or> tw_on \<or> md = FILE_ROUTER \<or> additions \<noteq> []"
    and "devDependencies base \<noteq> None \<or> ts_on \<or> additions \<noteq> []"
  shows "\<exists>pj. builtPackageJSON projectName ts_on tw_on md base ts tw fr additions = Inr pj"
proof -
  let ?m = "mergedPackageJSON projectName ts_on tw_on md base ts tw fr additions"
  note ms = merged_sections [of projectName ts_on tw_on md base ts tw fr additions]
  from assms(1) have "dependencies base \<noteq> None
      \<or> tl (dependency_contributions tw_on md base tw fr additions) \<noteq> []"
    by (auto simp: dependency_contributions_def)
  from foldl_spread_Some [OF this] ms obtain deps where d: "dependencies ?m = Some deps"
    by auto
  from assms(2) have "devDependencies base \<noteq> None
      \<or> tl (devDependency_contributions ts_on base ts additions) \<noteq> []"
    by (auto simp: devDependency_contributions_def)
  from foldl_spread_Some [OF this] ms obtain devDeps where dd: "devDependencies ?m = Some devDeps"
    by auto
  from d dd show ?thesis
    by (simp add: builtPackageJSON_def Let_def sortSection_def)
qed

lemma builtPackageJSON_fails:
  assumes "dependencies base = None" "\<not> tw_on" "md = CODE_ROUTER" "additions = []"
  shows "builtPackageJSON projectName ts_on tw_on md base ts tw fr additions
           = Inl (TypeError ''Cannot convert undefined or null to object'')"
  using assms
  by (simp add: builtPackageJSON_def mergedPackageJSON_def Let_def sortSection_def merge_typescript_def)

lemma mergedPackageJSON_unused:
  "mergedPackageJSON projectName ts_on tw_on md base
     (if ts_on then ts else x) (if tw_on then tw else y) (if md = FILE_ROUTER then fr else z) additions
   = mergedPackageJSON projectName ts_on tw_on md base ts tw fr additions"
  by (simp add: mergedPackageJSON_def)

lemma builtPackageJSON_unused:
  "builtPackageJSON projectName ts_on tw_on md base
     (if ts_on then ts else x) (if tw_on then tw else y) (if md = FILE_ROUTER then fr else z) additions
   = builtPackageJSON projectName ts_on tw_on md base ts tw fr additions"
  unfolding builtPackageJSON_def mergedPackageJSON_unused ..

lemma createPackageJSON_writes_built:
  assumes base: "readJSON E (resolve templateDir ''package.json'') = Inr base"
    and ts: "typescript options \<Longrightarrow> readJSON E (resolve templateDir ''package.ts.json'') = Inr ts"
    and tw: "tailwind options \<Longrightarrow> readJSON E (resolve templateDir ''package.tw.json'') = Inr tw"
    and fr: "mode options = FILE_ROUTER \<Longrightarrow> readJSON E (resolve routerDir ''package.fr.json'') = Inr fr"
    and built: "builtPackageJSON projectName (typescript options) (tailwind options) (mode options)
           base ts tw fr additions = Inr pj"
  shows "createPackageJSON E projectName options templateDir routerDir targetDir additions
           = on_files (writeFile (resolve targetDir ''package.json'') (JSON_stringify E pj))"
proof -
  have r1: "(if typescript options then readJSON E (resolve templateDir ''package.ts.json'') else Inr base)
      = Inr (if typescript options then ts else base)" using ts by simp
  have r2: "(if tailwind options then readJSON E (resolve templateDir ''package.tw.json'') else Inr base)
      = Inr (if tailwind options then tw else base)" using tw by simp
  have r3: "(if mode options = FILE_ROUTER then readJSON E (resolve routerDir ''package.fr.json'') else Inr base)
      = Inr (if mode options = FILE_ROUTER then fr else base)" using fr by simp
  show ?thesis
    by (rule ext) (simp only: createPackageJSON_def try_val_def base r1 r2 r3 sum.case
        builtPackageJSON_unused built)
qed

text \<open>
  Claim C1, as the code has it. The merge order is the order of the contributions
  above. In each section, a key (for the two sorted sections: other than
  \<^verbatim>\<open>__proto__\<close>) has in the written manifest the value of the last contribution to
  that section that holds it; the sections are merged independently, and a collision
  raises nothing. A key that no contribution to a section holds is not in that section
  of the written manifest, whatever the other sections of the fragments hold, and
  \<^verbatim>\<open>__proto__\<close> is in neither sorted section. The \<^verbatim>\<open>dependencies\<close> and the
  \<^verbatim>\<open>scripts\<close> of the typed variant, and the \<^verbatim>\<open>devDependencies\<close> and the
  \<^verbatim>\<open>scripts\<close> of the styling and of the routing variant, have no influence on the
  manifest.
\<close>

theorem manifest_last_writer_wins:
  assumes built: "builtPackageJSON projectName ts_on tw_on md base ts tw fr additions = Inr pj"
    and wf: "list_all wf_section (dependency_contributions tw_on md base tw fr additions)"
            "list_all wf_section (devDependency_contributions ts_on base ts additions)"
            "list_all wf_section (script_contributions base additions)"
  shows "(last_writer (dependency_contributions tw_on md base tw fr additions) j k v
            \<and> k \<noteq> ''__proto__'' \<longrightarrow> props (dependencies pj) k = Some v)
       \<and> (last_writer (devDependency_contributions ts_on base ts additions) j k v
            \<and> k \<noteq> ''__proto__'' \<longrightarrow> props (devDependencies pj) k = Some v)
       \<and> (last_writer (script_contributions base additions) j k v
            \<longrightarrow> props (scripts pj) k = Some v)
       \<and> (list_all (\<lambda>c. props c k = None) (dependency_contributions tw_on md base tw fr additions)
            \<longrightarrow> props (dependencies pj) k = None)
       \<and> (list_all (\<lambda>c. props c k = None) (devDependency_contributions ts_on base ts additions)
            \<longrightarrow> props (devDependencies pj) k = None)
       \<and> (list_all (\<lambda>c. props c k = None) (script_contributions base additions)
            \<longrightarrow> props (scripts pj) k = None)
       \<and> props (dependencies pj) ''__proto__'' = None
       \<and> props (devDependencies pj) ''__proto__'' = None
       \<and> builtPackageJSON projectName ts_on tw_on md base
              (ts\<lparr>dependencies := d1, scripts := s1\<rparr>)
              (tw\<lparr>devDependencies := d2, scripts := s2\<rparr>)
              (fr\<lparr>devDependencies := d3, scripts := s3\<rparr>) additions = Inr pj"
proof -
  let ?m = "mergedPackageJSON projectName ts_on tw_on md base ts tw fr additions"
  from builtPackageJSON_Inr [OF built] obtain deps devDeps where
    d: "dependencies ?m = Some deps" and dd: "devDependencies ?m = Some devDeps"
    and pj: "pj = ?m\<lparr>dependencies := Some (sortObject deps), devDependencies := Some (sortObject devDeps)\<rparr>"
    by blast
  note ms = merged_sections [of projectName ts_on tw_on md base ts tw fr additions]
  have D: "dependency_contributions tw_on md base tw fr additions
      = dependencies base # tl (dependency_contributions tw_on md base tw fr additions)"
    by (simp add: dependency_contributions_def)
  have DD: "devDependency_contributions ts_on base ts additions
      = devDependencies base # tl (devDependency_contributions ts_on base ts additions)"
    by (simp add: devDependency_contributions_def)
  have S: "script_contributions base additions
      = scripts base # tl (script_contributions base additions)"
    by (simp add: script_contributions_def)
  show ?thesis
  proof (intro conjI impI)
    assume a: "last_writer (dependency_contributions tw_on md base tw fr additions) j k v
                 \<and> k \<noteq> ''__proto__''"
    from wf(1) a have "props (dependencies ?m) k = Some v"
      using last_writer_section [of "dependencies base" "tl (dependency_contributions tw_on md base tw fr additions)" j k v]
        D ms by simp
    with d a show "props (dependencies pj) k = Some v"
      by (simp add: pj props_def map_of_sortObject)
  next
    assume a: "last_writer (devDependency_contributions ts_on base ts additions) j k v
                 \<and> k \<noteq> ''__proto__''"
    from wf(2) a have "props (devDependencies ?m) k = Some v"
      using last_writer_section [of "devDependencies base" "tl (devDependency_contributions ts_on base ts additions)" j k v]
        DD ms by simp
    with dd a show "props (devDependencies pj) k = Some v"
      by (simp add: pj props_def map_of_sortObject)
  next
    assume a: "last_writer (script_contributions base additions) j k v"
    from wf(3) a have "props (scripts ?m) k = Some v"
      using last_writer_section [of "scripts base" "tl (script_contributions base additions)" j k v]
        S ms by simp
    then show "props (scripts pj) k = Some v"
      by (simp add: pj)
  next
    assume a: "list_all (\<lambda>c. props c k = None) (dependency_contributions tw_on md base tw fr additions)"
    from wf(1) a have "props (dependencies ?m) k = None"
      using absent_section [of "dependencies base" "tl (dependency_contributions tw_on md base tw fr additions)" k]
        D ms by simp
    with d show "props (dependencies pj) k = None"
      by (simp add: pj props_def map_of_sortObject)
  next
    assume a: "list_all (\<lambda>c. props c k = None) (devDependency_contributions ts_on base ts additions)"
    from wf(2) a have "props (devDependencies ?m) k = None"
      using absent_section [of "devDependencies base" "tl (devDependency_contributions ts_on base ts additions)" k]
        DD ms by simp
    with dd show "props (devDependencies pj) k = None"
      by (simp add: pj props_def map_of_sortObject)
  next
    assume a: "list_all (\<lambda>c. props c k = None) (script_contributions base additions)"
    from wf(3) a have "props (scripts ?m) k = None"
      using absent_section [of "scripts base" "tl (script_contributions base additions)" k]
        S ms by simp
    then show "props (scripts pj) k = None"
      by (simp add: pj)
  next
    show "props (dependencies pj) ''__proto__'' = None"
      by (simp add: pj props_def map_of_sortObject)
  next
    show "props (devDependencies pj) ''__proto__'' = None"
      by (simp add: pj props_def map_of_sortObject)
  next
    from built show "builtPackageJSON projectName ts_on tw_on md base
              (ts\<lparr>dependencies := d1, scripts := s1\<rparr>)
              (tw\<lparr>devDependencies := d2, scripts := s2\<rparr>)
              (fr\<lparr>devDependencies := d3, scripts := s3\<rparr>) additions = Inr pj"
      by (simp only: unmerged_sections_unused)
  qed
qed

lemma cx_built:
  "builtPackageJSON ''demo'' True False CODE_ROUTER cx_base cx_variant cx_variant cx_variant
     [cx_addOn1, cx_addOn2] = Inr cx_result"
  by (simp add: manifest_eval cx_base_def cx_variant_def cx_addOn1_def cx_addOn2_def cx_result_def)

theorem manifest_last_writer_wins_witness:
  "builtPackageJSON ''demo'' True False CODE_ROUTER cx_base cx_variant cx_variant cx_variant
     [cx_addOn1, cx_addOn2] = Inr cx_result
   \<and> list_all wf_section (dependency_contributions False CODE_ROUTER cx_base cx_variant cx_variant [cx_addOn1, cx_addOn2])
   \<and> list_all wf_section (devDependency_contributions True cx_base cx_variant [cx_addOn1, cx_addOn2])
   \<and> list_all wf_section (script_contributions cx_base [cx_addOn1, cx_addOn2])
   \<and> last_writer (dependency_contributions False CODE_ROUTER cx_base cx_variant cx_variant [cx_addOn1, cx_addOn2])
        1 ''react'' ''^19.1.0''
   \<and> props (dependencies cx_result) ''react'' = Some ''^19.1.0''
   \<and> last_writer (devDependency_contributions True cx_base cx_variant [cx_addOn1, cx_addOn2])
        1 ''vite'' ''^6.0.0''
   \<and> props (devDependencies cx_result) ''vite'' = Some ''^6.0.0''
   \<and> last_writer (script_contributions cx_base [cx_addOn1, cx_addOn2]) 1 ''start'' ''vinxi''
   \<and> props (scripts cx_result) ''start'' = Some ''vinxi''
   \<and> list_all (\<lambda>c. props c ''tslib'' = None)
        (dependency_contributions False CODE_ROUTER cx_base cx_variant cx_variant [cx_addOn1, cx_addOn2])
   \<and> props (dependencies cx_variant) ''tslib'' = Some ''^2.0.0''
   \<and> props (dependencies cx_result) ''tslib'' = None
   \<and> list_all (\<lambda>c. props c ''tslib'' = None)
        (devDependency_contributions True cx_base cx_variant [cx_addOn1, cx_addOn2])
   \<and> props (devDependencies cx_result) ''tslib'' = None
   \<and> list_all (\<lambda>c. props c ''typecheck'' = None) (script_contributions cx_base [cx_addOn1, cx_addOn2])
   \<and> props (scripts cx_variant) ''typecheck'' = Some ''tsc''
   \<and> props (scripts cx_result) ''typecheck'' = None"
proof -
  note defs = dependency_contributions_def devDependency_contributions_def script_contributions_def
    wf_section_def wf_obj_def last_writer_def props_def cx_base_def cx_variant_def cx_addOn1_def
    cx_addOn2_def
  have w1: "list_all wf_section (dependency_contributions False CODE_ROUTER cx_base cx_variant cx_variant [cx_addOn1, cx_addOn2])"
    by (simp add: defs)
  have w2: "list_all wf_section (devDependency_contributions True cx_base cx_variant [cx_addOn1, cx_addOn2])"
    by (simp add: defs)
  have w3: "list_all wf_section (script_contributions cx_base [cx_addOn1, cx_addOn2])"
    by (simp add: defs)
  have l1: "last_writer (dependency_contributions False CODE_ROUTER cx_base cx_variant cx_variant [cx_addOn1, cx_addOn2])
        1 ''react'' ''^19.1.0''"
    by (simp add: defs)
  have l2: "last_writer (devDependency_contributions True cx_base cx_variant [cx_addOn1, cx_addOn2])
        1 ''vite'' ''^6.0.0''"
    by (simp add: defs)
  have l3: "last_writer (script_contributions cx_base [cx_addOn1, cx_addOn2]) 1 ''start'' ''vinxi''"
    by (simp add: defs)
  have n: "''react'' \<noteq> ''__proto__''" "''vite'' \<noteq> ''__proto__''" by simp_all
  note t = manifest_last_writer_wins [OF cx_built w1 w2 w3]
  note c1 = t [THEN conjunct1, THEN mp, OF conjI [OF l1 n(1)]]
  note c2 = t [THEN conjunct2, THEN conjunct1, THEN mp, OF conjI [OF l2 n(2)]]
  note c3 = t [THEN conjunct2, THEN conjunct2, THEN conjunct1, THEN mp, OF l3]
  have a1: "list_all (\<lambda>c. props c ''tslib'' = None)
        (dependency_contributions False CODE_ROUTER cx_base cx_variant cx_variant [cx_addOn1, cx_addOn2])"
    by (simp add: defs)
  have a2: "list_all (\<lambda>c. props c ''tslib'' = None)
        (devDependency_contributions True cx_base cx_variant [cx_addOn1, cx_addOn2])"
    by (simp add: defs)
  have a3: "list_all (\<lambda>c. props c ''typecheck'' = None) (script_contributions cx_base [cx_addOn1, cx_addOn2])"
    by (simp add: defs)
  have v: "props (dependencies cx_variant) ''tslib'' = Some ''^2.0.0''"
    "props (scripts cx_variant) ''typecheck'' = Some ''tsc''"
    by (simp_all add: defs)
  note u = t [THEN conjunct2, THEN conjunct2, THEN conjunct2]
  note c4 = u [THEN conjunct1, THEN mp, OF a1]
  note c5 = u [THEN conjunct2, THEN conjunct1, THEN mp, OF a2]
  note c6 = u [THEN conjunct2, THEN conjunct2, THEN conjunct1, THEN mp, OF a3]
  from cx_built w1 w2 w3 l1 c1 l2 c2 l3 c3 a1 v(1) c4 a2 c5 a3 v(2) c6 show ?thesis by (intro conjI)
qed

text \<open>
  The claim as stated fails for the variants: with the typed variant on, a dependency
  and a script it holds leave the base template's values in place.
\<close>

theorem typed_variant_dependencies_ignored:
  "builtPackageJSON ''demo'' True False CODE_ROUTER cx_base cx_variant cx_variant cx_variant []
     = Inr cx_result_typed
   \<and> props (dependencies cx_base) ''react'' = Some ''^18.0.0''
   \<and> props (dependencies cx_variant) ''react'' = Some ''^19.0.0''
   \<and> props (dependencies cx_result_typed) ''react'' = Some ''^18.0.0''
   \<and> props (scripts cx_base) ''start'' = Some ''vite''
   \<and> props (scripts cx_variant) ''start'' = Some ''other''
   \<and> props (scripts cx_result_typed) ''start'' = Some ''vite''"
  by (simp add: manifest_eval cx_base_def cx_variant_def cx_result_typed_def props_def)

lemma manifest_key_order_parts:
  assumes built: "builtPackageJSON projectName ts_on tw_on md base ts tw fr additions = Inr pj"
    and wf: "list_all wf_section (dependency_contributions tw_on md base tw fr additions)"
            "list_all wf_section (devDependency_contributions ts_on base ts additions)"
            "list_all wf_section (script_contributions base additions)"
    and plain: "list_all plain_section (dependency_contributions tw_on md base tw fr additions)"
            "list_all plain_section (devDependency_contributions ts_on base ts additions)"
            "list_all plain_section (script_contributions base additions)"
  shows "sorted_wrt (<) (emitted_keys (dependencies pj))"
    and "sorted_wrt (<) (emitted_keys (devDependencies pj))"
    and "emitted_keys (scripts pj)
           = insertion_order [] (concat (map section_keys (script_contributions base additions)))"
proof -
  let ?m = "mergedPackageJSON projectName ts_on tw_on md base ts tw fr additions"
  from builtPackageJSON_Inr [OF built] obtain deps devDeps where
    d: "dependencies ?m = Some deps" and dd: "devDependencies ?m = Some devDeps"
    and pj: "pj = ?m\<lparr>dependencies := Some (sortObject deps), devDependencies := Some (sortObject devDeps)\<rparr>"
    by blast
  note ms = merged_sections [of projectName ts_on tw_on md base ts tw fr additions]
  have D: "dependency_contributions tw_on md base tw fr additions
      = dependencies base # tl (dependency_contributions tw_on md base tw fr additions)"
    by (simp add: dependency_contributions_def)
  have DD: "devDependency_contributions ts_on base ts additions
      = devDependencies base # tl (devDependency_contributions ts_on base ts additions)"
    by (simp add: devDependency_contributions_def)
  have S: "script_contributions base additions
      = scripts base # tl (script_contributions base additions)"
    by (simp add: script_contributions_def)
  have hD: "wf_section (dependencies base)" "plain_section (dependencies base)"
      "list_all wf_section (tl (dependency_contributions tw_on md base tw fr additions))"
      "list_all plain_section (tl (dependency_contributions tw_on md base tw fr additions))"
    using wf(1) plain(1) by (simp_all add: dependency_contributions_def)
  have "plain_section (dependencies ?m) \<and> wf_section (dependencies ?m)"
    using keys_foldl_spread [OF hD(2) hD(1) hD(4) hD(3)] wf_foldl_spread [OF hD(1)] ms by simp
  with d have "wf_obj deps" "list_all (\<lambda>k. \<not> is_array_index k) (map fst deps)"
    by (simp_all add: plain_section_def wf_section_def)
  from sortObject_lexicographic(2) [OF this] show "sorted_wrt (<) (emitted_keys (dependencies pj))"
    by (simp add: pj emitted_keys_def)
  have hDD: "wf_section (devDependencies base)" "plain_section (devDependencies base)"
      "list_all wf_section (tl (devDependency_contributions ts_on base ts additions))"
      "list_all plain_section (tl (devDependency_contributions ts_on base ts additions))"
    using wf(2) plain(2) by (simp_all add: devDependency_contributions_def)
  have "plain_section (devDependencies ?m) \<and> wf_section (devDependencies ?m)"
    using keys_foldl_spread [OF hDD(2) hDD(1) hDD(4) hDD(3)] wf_foldl_spread [OF hDD(1)] ms by simp
  with dd have "wf_obj devDeps" "list_all (\<lambda>k. \<not> is_array_index k) (map fst devDeps)"
    by (simp_all add: plain_section_def wf_section_def)
  from sortObject_lexicographic(2) [OF this] show "sorted_wrt (<) (emitted_keys (devDependencies pj))"
    by (simp add: pj emitted_keys_def)
  have hS: "wf_section (scripts base)" "plain_section (scripts base)"
      "list_all wf_section (tl (script_contributions base additions))"
      "list_all plain_section (tl (script_contributions base additions))"
    using wf(3) plain(3) by (simp_all add: script_contributions_def)
  have sk: "plain_section (scripts ?m) \<and> section_keys (scripts ?m)
      = insertion_order (section_keys (scripts base)) (concat (map section_keys (tl (script_contributions base additions))))"
    using keys_foldl_spread [OF hS(2) hS(1) hS(4) hS(3)] ms by simp
  have "distinct (section_keys (scripts base))"
    using hS(1) by (cases "scripts base") (auto simp: section_keys_def wf_section_def wf_obj_def)
  then have b: "insertion_order [] (section_keys (scripts base)) = section_keys (scripts base)"
    using insertion_order_distinct [of "section_keys (scripts base)" "[]"] by simp
  from sk have "plain_section (scripts ?m)" by simp
  then have "emitted_keys (scripts ?m) = section_keys (scripts ?m)"
    by (cases "scripts ?m") (simp_all add: emitted_keys_def section_keys_def plain_section_def own_keys_plain)
  also have "\<dots> = insertion_order [] (concat (map section_keys (script_contributions base additions)))"
    using sk b by (subst S) (simp add: insertion_order_append)
  finally show "emitted_keys (scripts pj)
           = insertion_order [] (concat (map section_keys (script_contributions base additions)))"
    by (simp add: pj)
qed

text \<open>
  Claim C3, as the code has it. When no key of a contribution is an array index, the
  written manifest emits its \<^verbatim>\<open>dependencies\<close> and its \<^verbatim>\<open>devDependencies\<close> in
  strictly ascending lexicographic order of the keys, whatever the order in which they
  were contributed, and its \<^verbatim>\<open>scripts\<close> in the order in which the keys were first
  inserted by the merge. The manifest is a function of the inputs, so two runs on the
  same inputs write the same text.
\<close>

theorem manifest_key_order:
  assumes "builtPackageJSON projectName ts_on tw_on md base ts tw fr additions = Inr pj"
    and "list_all wf_section (dependency_contributions tw_on md base tw fr additions)"
    and "list_all wf_section (devDependency_contributions ts_on base ts additions)"
    and "list_all wf_section (script_contributions base additions)"
    and "list_all plain_section (dependency_contributions tw_on md base tw fr additions)"
    and "list_all plain_section (devDependency_contributions ts_on base ts additions)"
    and "list_all plain_section (script_contributions base additions)"
  shows "sorted_wrt (<) (emitted_keys (dependencies pj))
       \<and> sorted_wrt (<) (emitted_keys (devDependencies pj))
       \<and> emitted_keys (scripts pj)
           = insertion_order [] (concat (map section_keys (script_contributions base additions)))"
  using manifest_key_order_parts [OF assms] by (intro conjI)

theorem manifest_key_order_witness:
  "builtPackageJSON ''demo'' True False CODE_ROUTER cx_base cx_variant cx_variant cx_variant
     [cx_addOn1, cx_addOn2] = Inr cx_result
   \<and> list_all wf_section (dependency_contributions False CODE_ROUTER cx_base cx_variant cx_variant [cx_addOn1, cx_addOn2])
   \<and> list_all wf_section (devDependency_contributions True cx_base cx_variant [cx_addOn1, cx_addOn2])
   \<and> list_all wf_section (script_contributions cx_base [cx_addOn1, cx_addOn2])
   \<and> list_all plain_section (dependency_contributions False CODE_ROUTER cx_base cx_variant cx_variant [cx_addOn1, cx_addOn2])
   \<and> list_all plain_section (devDependency_contributions True cx_base cx_variant [cx_addOn1, cx_addOn2])
   \<and> list_all plain_section (script_contributions cx_base [cx_addOn1, cx_addOn2])
   \<and> emitted_keys (dependencies cx_result) = [''foo'', ''react'', ''zod'']
   \<and> sorted_wrt (<) (emitted_keys (dependencies cx_result))
   \<and> emitted_keys (devDependencies cx_result) = [''bar'', ''typescript'', ''vite'']
   \<and> sorted_wrt (<) (emitted_keys (devDependencies cx_result))
   \<and> concat (map section_keys (script_contributions cx_base [cx_addOn1, cx_addOn2]))
        = [''start'', ''build'', ''start'']
   \<and> emitted_keys (scripts cx_result) = [''start'', ''build'']"
proof -
  note defs = dependency_contributions_def devDependency_contributions_def script_contributions_def
    wf_section_def wf_obj_def plain_section_def cx_base_def cx_variant_def cx_addOn1_def
    cx_addOn2_def is_array_index_def is_digit_def
  have w1: "list_all wf_section (dependency_contributions False CODE_ROUTER cx_base cx_variant cx_variant [cx_addOn1, cx_addOn2])"
    by (simp add: defs)
  have w2: "list_all wf_section (devDependency_contributions True cx_base cx_variant [cx_addOn1, cx_addOn2])"
    by (simp add: defs)
  have w3: "list_all wf_section (script_contributions cx_base [cx_addOn1, cx_addOn2])"
    by (simp add: defs)
  have p1: "list_all plain_section (dependency_contributions False CODE_ROUTER cx_base cx_variant cx_variant [cx_addOn1, cx_addOn2])"
    by (simp add: defs)
  have p2: "list_all plain_section (devDependency_contributions True cx_base cx_variant [cx_addOn1, cx_addOn2])"
    by (simp add: defs)
  have p3: "list_all plain_section (script_contributions cx_base [cx_addOn1, cx_addOn2])"
    by (simp add: defs)
  note u = manifest_key_order [OF cx_built w1 w2 w3 p1 p2 p3]
  note t = u [THEN conjunct1] u [THEN conjunct2, THEN conjunct1] u [THEN conjunct2, THEN conjunct2]
  have k1: "emitted_keys (dependencies cx_result) = [''foo'', ''react'', ''zod'']"
    by (simp add: cx_result_def emitted_keys_def own_keys_def own_entries_def is_array_index_def is_digit_def)
  have k2: "emitted_keys (devDependencies cx_result) = [''bar'', ''typescript'', ''vite'']"
    by (simp add: cx_result_def emitted_keys_def own_keys_def own_entries_def is_array_index_def is_digit_def)
  have c: "concat (map section_keys (script_contributions cx_base [cx_addOn1, cx_addOn2]))
        = [''start'', ''build'', ''start'']"
    by (simp add: script_contributions_def section_keys_def cx_base_def cx_addOn1_def cx_addOn2_def)
  have k3: "emitted_keys (scripts cx_result) = [''start'', ''build'']"
    using t(3) by (simp add: c insertion_order_def)
  from cx_built w1 w2 w3 p1 p2 p3 k1 t(1) k2 t(2) c k3 show ?thesis by (intro conjI)
qed

text \<open>
  The claim as stated fails at keys that are array indices: \<^verbatim>\<open>sortObject\<close> inserts
  \<^verbatim>\<open>10\<close> before \<^verbatim>\<open>9\<close>, and the object enumerates, and so
  \<^verbatim>\<open>JSON.stringify\<close> emits, \<^verbatim>\<open>9\<close> before \<^verbatim>\<open>10\<close>, which is not the
  lexicographic order; and a script named \<^verbatim>\<open>1\<close> that was inserted after
  \<^verbatim>\<open>build\<close> is emitted before it.
\<close>

theorem array_index_keys_not_lexicographic:
  "builtPackageJSON ''demo'' False False CODE_ROUTER idx_base idx_base idx_base idx_base []
     = Inr idx_result
   \<and> emitted_keys (dependencies idx_result) = [''9'', ''10'']
   \<and> ''10'' < ''9''
   \<and> section_keys (scripts idx_base) = [''build'', ''1'']
   \<and> emitted_keys (scripts idx_result) = [''1'', ''build'']"
  by (simp add: manifest_eval idx_base_def idx_result_def emitted_keys_def section_keys_def)

section \<open>Appending to a target that is not there\<close>

lemmas fs_eval = existsSync_def components_def norm_step_def resolve_def path_str_def endsWith_def
  suffix_to_prefix seq_def on_files_def try_val_def mkdir_def writeFile_def appendFile_def copyFile_def
  readFile_def dirname_def is_dir_def is_file_def Let_def

lemmas demo_eval = demo_externals_def demo_catalog_def demo_base_def demo_options_def
  demo_world_existing_def

lemma mkdir_keeps_absent:
  "mkdir d f = Inr f1 \<Longrightarrow> f p = None \<Longrightarrow> \<not> prefix p (components d) \<Longrightarrow> f1 p = None"
  by (auto simp: mkdir_def Let_def split: if_splits)

text \<open>
  Claim C2, as the code has it. For a file with the append qualifier whose stripped
  target does not exist, the composer raises nothing: once the directory of the
  unstripped target is made, \<^verbatim>\<open>appendFile\<close> creates the stripped target, holding
  exactly the source's content, provided the stripped target is not one of the
  directories just made and its own directory exists.
\<close>

theorem append_creates_missing_target:
  assumes src: "\<not> endsWith source ''.ejs''" "endsWith source ''.append''"
    and absent: "\<not> existsSync (files w) (append_target target)"
    and made: "mkdir (dirname target) (files w) = Inr f1"
    and other: "\<not> prefix (components (append_target target)) (components (dirname target))"
    and parent: "is_dir f1 (butlast (components (append_target target)))"
  shows "copyFilesRecursively (File content) source target cp tf w =
           (None, w\<lparr>files := f1(components (append_target target) \<mapsto> FileE content)\<rparr>)"
proof -
  let ?p = "components (append_target target)"
  from absent have ne: "?p \<noteq> []" and n0: "files w ?p = None"
    by (simp_all add: existsSync_def)
  from mkdir_keeps_absent [OF made n0 other] have n1: "f1 ?p = None" .
  have a: "appendFile (append_target target) content f1 = Inr (f1(?p \<mapsto> FileE content))"
    using ne n1 parent by (simp add: appendFile_def Let_def)
  show ?thesis
    using src made a by (simp add: seq_def on_files_def)
qed

theorem append_creates_missing_target_witness:
  "\<not> endsWith ''/pkg/assets/notes.md.append'' ''.ejs''
   \<and> endsWith ''/pkg/assets/notes.md.append'' ''.append''
   \<and> \<not> existsSync (files demo_world_existing) (append_target ''/home/demo/notes.md.append'')
   \<and> mkdir (dirname ''/home/demo/notes.md.append'') (files demo_world_existing) = Inr (files demo_world_existing)
   \<and> \<not> prefix (components (append_target ''/home/demo/notes.md.append''))
            (components (dirname ''/home/demo/notes.md.append''))
   \<and> is_dir (files demo_world_existing) (butlast (components (append_target ''/home/demo/notes.md.append'')))
   \<and> copyFilesRecursively (File ''from alpha'') ''/pkg/assets/notes.md.append''
        ''/home/demo/notes.md.append'' (\<lambda>s d. skip) (\<lambda>s t. skip) demo_world_existing =
       (None, demo_world_existing\<lparr>files := (files demo_world_existing)
          (components (append_target ''/home/demo/notes.md.append'') \<mapsto> FileE ''from alpha'')\<rparr>)"
proof -
  note ev = demo_world_existing_def existsSync_def components_def norm_step_def
      path_str_def endsWith_def suffix_to_prefix mkdir_def
      dirname_def append_target_def is_dir_def is_file_def Let_def
  have 1: "\<not> endsWith ''/pkg/assets/notes.md.append'' ''.ejs''" by (simp add: ev)
  have 2: "endsWith ''/pkg/assets/notes.md.append'' ''.append''" by (simp add: ev)
  have 3: "\<not> existsSync (files demo_world_existing) (append_target ''/home/demo/notes.md.append'')"
    by (simp add: ev)
  have 4: "mkdir (dirname ''/home/demo/notes.md.append'') (files demo_world_existing) = Inr (files demo_world_existing)"
    by (auto simp: ev fun_eq_iff prefix_Cons split: list.splits)
  have 5: "\<not> prefix (components (append_target ''/home/demo/notes.md.append''))
            (components (dirname ''/home/demo/notes.md.append''))" by (simp add: ev)
  have 6: "is_dir (files demo_world_existing) (butlast (components (append_target ''/home/demo/notes.md.append'')))"
    by (simp add: ev)
  note t = append_creates_missing_target [OF 1 2 3 4 5 6]
  from 1 2 3 4 5 6 t show ?thesis by (intro conjI)
qed

text \<open>
  The claim as stated fails: composing an asset tree that holds \<^verbatim>\<open>notes.md.append\<close>
  into a target tree without \<^verbatim>\<open>notes.md\<close> ends without an error and has created
  \<^verbatim>\<open>notes.md\<close>.
\<close>

theorem append_before_exists_creates_target:
  "\<not> existsSync (files demo_world_existing) ''/home/demo/notes.md''
   \<and> fst (copyFilesRecursively demo_assets ''/pkg/templates/add-ons/alpha/assets'' ''/home/demo''
            (\<lambda>s d. skip) (\<lambda>s t. skip) demo_world_existing) = None
   \<and> files (snd (copyFilesRecursively demo_assets ''/pkg/templates/add-ons/alpha/assets'' ''/home/demo''
            (\<lambda>s d. skip) (\<lambda>s t. skip) demo_world_existing)) [''home'', ''demo'', ''notes.md'']
       = Some (FileE ''from alpha'')"
  by (simp add: demo_assets_def demo_world_existing_def existsSync_def components_def norm_step_def
      resolve_def path_str_def endsWith_def suffix_to_prefix seq_def on_files_def mkdir_def
      dirname_def appendFile_def append_target_def is_dir_def is_file_def Let_def)

section \<open>Formatting rendered templates\<close>

text \<open>
  Claim C7, as the code has it. A rendered template whose target ends in \<^verbatim>\<open>.ts\<close> or
  \<^verbatim>\<open>.tsx\<close> is given to the formatter, with the options no semicolons, single quotes,
  trailing commas everywhere, and the formatted text is what is written; when the
  formatter fails, its error is thrown as it is and nothing has been written; every
  other target, \<^verbatim>\<open>.js\<close> and \<^verbatim>\<open>.jsx\<close> included, is written as rendered.
\<close>

theorem templateFile_formats_ts_and_tsx:
  assumes rd: "readFile (catalog E) (resolve templateDir fname) = Inr template"
    and rn: "render E template (mkTemplateValues projectName options) = Inr content"
    and tg: "target = templateFile_target fname targetFileName"
  shows "((endsWith target ''.ts'' \<or> endsWith target ''.tsx'')
            \<and> format E content formatOptions = Inr formatted \<longrightarrow>
          templateFile E projectName options targetDir templateDir fname targetFileName =
            steps [on_files (mkdir (dirname (resolve targetDir target))),
                   on_files (writeFile (resolve targetDir target) formatted)])
       \<and> ((endsWith target ''.ts'' \<or> endsWith target ''.tsx'')
            \<and> format E content formatOptions = Inl e \<longrightarrow>
          templateFile E projectName options targetDir templateDir fname targetFileName w = (Some e, w))
       \<and> (\<not> (endsWith target ''.ts'' \<or> endsWith target ''.tsx'') \<longrightarrow>
          templateFile E projectName options targetDir templateDir fname targetFileName =
            steps [on_files (mkdir (dirname (resolve targetDir target))),
                   on_files (writeFile (resolve targetDir target) content)])
       \<and> \<not> semi formatOptions \<and> singleQuote formatOptions \<and> trailingComma formatOptions = ''all''"
  using rd rn tg
  by (auto simp: templateFile_def try_val_def formatOptions_def fun_eq_iff Let_def simp del: steps.simps)

theorem templateFile_formats_ts_and_tsx_witness:
  "templateFile demo_externals ''demo'' demo_options ''/home/demo'' ''/pkg/templates/base''
      ''./src/App.tsx.ejs'' None =
     steps [on_files (mkdir (dirname (resolve ''/home/demo'' ''./src/App.tsx''))),
            on_files (writeFile (resolve ''/home/demo'' ''./src/App.tsx'') ''app'')]
   \<and> templateFile demo_externals_failing ''demo'' demo_options ''/home/demo'' ''/pkg/templates/base''
      ''./src/App.tsx.ejs'' None demo_world_existing
       = (Some (FormatFailure ''Unexpected token (1:4)''), demo_world_existing)
   \<and> templateFile demo_externals ''demo'' demo_options ''/home/demo'' ''/pkg/templates/base''
      ''./src/styles.css.ejs'' None =
     steps [on_files (mkdir (dirname (resolve ''/home/demo'' ''./src/styles.css''))),
            on_files (writeFile (resolve ''/home/demo'' ''./src/styles.css'') ''styles'')]"
proof -
  note ev = fs_eval demo_eval node_at.simps
  have rd1: "readFile (catalog demo_externals) (resolve ''/pkg/templates/base'' ''./src/App.tsx.ejs'') = Inr ''app;''"
    by (simp add: ev)
  have rd1f: "readFile (catalog demo_externals_failing) (resolve ''/pkg/templates/base'' ''./src/App.tsx.ejs'') = Inr ''app;''"
    by (simp add: ev demo_externals_failing_def)
  have rd2: "readFile (catalog demo_externals) (resolve ''/pkg/templates/base'' ''./src/styles.css.ejs'') = Inr ''styles''"
    by (simp add: ev)
  have rn1: "render demo_externals ''app;'' (mkTemplateValues ''demo'' demo_options) = Inr ''app;''"
    by (simp add: demo_externals_def)
  have rn1f: "render demo_externals_failing ''app;'' (mkTemplateValues ''demo'' demo_options) = Inr ''app;''"
    by (simp add: demo_externals_def demo_externals_failing_def)
  have rn2: "render demo_externals ''styles'' (mkTemplateValues ''demo'' demo_options) = Inr ''styles''"
    by (simp add: demo_externals_def)
  have tg1: "''./src/App.tsx'' = templateFile_target ''./src/App.tsx.ejs'' None"
    by (simp add: templateFile_target_def)
  have tg2: "''./src/styles.css'' = templateFile_target ''./src/styles.css.ejs'' None"
    by (simp add: templateFile_target_def)
  have f1: "(endsWith ''./src/App.tsx'' ''.ts'' \<or> endsWith ''./src/App.tsx'' ''.tsx'')
      \<and> format demo_externals ''app;'' formatOptions = Inr ''app''"
    by (simp add: endsWith_def suffix_to_prefix demo_externals_def)
  have f1f: "(endsWith ''./src/App.tsx'' ''.ts'' \<or> endsWith ''./src/App.tsx'' ''.tsx'')
      \<and> format demo_externals_failing ''app;'' formatOptions = Inl (FormatFailure ''Unexpected token (1:4)'')"
    by (simp add: endsWith_def suffix_to_prefix demo_externals_def demo_externals_failing_def)
  have f2: "\<not> (endsWith ''./src/styles.css'' ''.ts'' \<or> endsWith ''./src/styles.css'' ''.tsx'')"
    by (simp add: endsWith_def suffix_to_prefix)
  note a = templateFile_formats_ts_and_tsx [OF rd1 rn1 tg1, THEN conjunct1, THEN mp, OF f1]
  note b = templateFile_formats_ts_and_tsx [OF rd1f rn1f tg1, THEN conjunct2, THEN conjunct1, THEN mp, OF f1f]
  note c = templateFile_formats_ts_and_tsx [OF rd2 rn2 tg2, THEN conjunct2, THEN conjunct2, THEN conjunct1, THEN mp, OF f2]
  from a b c show ?thesis by (intro conjI)
qed

text \<open>
  The claim as stated fails: the target \<^verbatim>\<open>./src/App.jsx\<close> is written as rendered
  although the formatter would have changed the text, and the error thrown for a
  target that fails to format is the formatter's own, which is given the text and not
  the file's name.
\<close>

theorem jsx_target_not_formatted:
  "fst (templateFile demo_externals ''demo'' demo_options ''/home/demo'' ''/pkg/templates/base''
          ''./src/App.tsx.ejs'' (Some ''./src/App.jsx'') demo_world_existing) = None
   \<and> files (snd (templateFile demo_externals ''demo'' demo_options ''/home/demo'' ''/pkg/templates/base''
          ''./src/App.tsx.ejs'' (Some ''./src/App.jsx'') demo_world_existing))
        [''home'', ''demo'', ''src'', ''App.jsx''] = Some (FileE ''app;'')
   \<and> format demo_externals ''app;'' formatOptions = Inr ''app''
   \<and> templateFile demo_externals_failing ''demo'' demo_options ''/home/demo'' ''/pkg/templates/base''
          ''./src/App.tsx.ejs'' None demo_world_existing
        = (Some (FormatFailure ''Unexpected token (1:4)''), demo_world_existing)"
  by (simp add: templateFile_def templateFile_target_def mkTemplateValues_def formatOptions_def
      demo_externals_failing_def fs_eval demo_eval)

section \<open>The order of the add-ons\<close>

lemma emits_emit: "emits (emit e) [e]"
  by (simp add: emits_def emit_def)

lemma emits_skip: "emits skip []"
  by (simp add: emits_def skip_def)

lemma emits_on_files: "emits (on_files f) []"
  by (auto simp: emits_def on_files_def split: sum.splits)

lemma emits_seq:
  assumes a: "emits a xs" and b: "emits b ys"
  shows "emits (seq a b) (xs @ ys)"
  unfolding emits_def
proof (intro allI impI)
  fix w r w'
  assume s: "seq a b w = (r, w')"
  obtain r1 w1 where a1: "a w = (r1, w1)" by (cases "a w")
  from a a1 obtain t1 where t1: "trace w1 = trace w @ t1" "prefix t1 xs" "r1 = None \<longrightarrow> t1 = xs"
    unfolding emits_def by blast
  show "\<exists>tr. trace w' = trace w @ tr \<and> prefix tr (xs @ ys) \<and> (r = None \<longrightarrow> tr = xs @ ys)"
  proof (cases r1)
    case (Some e)
    with s a1 have "r = Some e" "w' = w1" by (simp_all add: seq_def)
    with t1 show ?thesis by (auto intro: prefix_prefix)
  next
    case None
    with s a1 have b1: "b w1 = (r, w')" by (simp add: seq_def)
    from b b1 obtain t2 where t2: "trace w' = trace w1 @ t2" "prefix t2 ys" "r = None \<longrightarrow> t2 = ys"
      unfolding emits_def by blast
    from None t1 have "t1 = xs" by simp
    with t1 t2 have "trace w' = trace w @ (xs @ t2)" "prefix (xs @ t2) (xs @ ys)"
      "r = None \<longrightarrow> xs @ t2 = xs @ ys" by simp_all
    then show ?thesis by blast
  qed
qed

lemma emits_steps_Nil: "emits (steps []) []"
  by (simp add: emits_def)

lemma emits_steps_Cons: "emits a xs \<Longrightarrow> emits (steps rest) ys \<Longrightarrow> emits (steps (a # rest)) (xs @ ys)"
proof -
  assume "emits a xs" and "emits (steps rest) ys"
  then have "emits (seq a (steps rest)) (xs @ ys)" by (rule emits_seq)
  moreover have "steps (a # rest) = seq a (steps rest)" by (rule ext) simp
  ultimately show ?thesis by simp
qed

lemma emits_steps_map:
  "(\<And>x. x \<in> set xs \<Longrightarrow> emits (f x) (g x)) \<Longrightarrow> emits (steps (map f xs)) (concat (map g xs))"
proof (induction xs)
  case Nil
  show ?case by (simp add: emits_def)
next
  case (Cons x xs)
  have "emits (seq (f x) (steps (map f xs))) (g x @ concat (map g xs))"
    by (rule emits_seq) (simp_all add: Cons)
  moreover have "steps (map f (x # xs)) = seq (f x) (steps (map f xs))" by (rule ext) simp
  ultimately show ?case by simp
qed

lemma concat_map_Nil: "concat (map (\<lambda>x. []) xs) = []"
  by (induction xs) simp_all

lemma emits_steps_silent:
  "(\<And>s. s \<in> set ss \<Longrightarrow> emits s []) \<Longrightarrow> emits (steps ss) []"
  using emits_steps_map [of ss "\<lambda>s. s" "\<lambda>s. []"] by (simp add: concat_map_Nil)

lemma emits_try_val: "(\<And>v. emits (k v) []) \<Longrightarrow> emits (try_val r k) []"
  by (cases r) (auto simp: emits_def try_val_def)

lemma emits_templateFile:
  "emits (templateFile E projectName options targetDir templateDir fname targetFileName) []"
  unfolding templateFile_def Let_def
  by (intro emits_try_val emits_steps_silent) (auto simp: emits_on_files)

lemma emits_copyFilesRecursively:
  assumes cp: "\<And>s d. emits (cp s d) []" and tf: "\<And>s t. emits (tf s t) []"
  shows "emits (copyFilesRecursively n source target cp tf) []"
  using cp tf
proof (induction n source target cp tf rule: copyFilesRecursively.induct)
  case (1 entries source target copyFile' templateFile')
  have "copyFilesRecursively (Dir entries) source target copyFile' templateFile'
      = steps (map (\<lambda>e. copyFilesRecursively (snd e) (resolve source (fst e)) (resolve target (fst e))
                        copyFile' templateFile') entries)"
    by (rule ext) simp
  moreover have "emits \<dots> []"
    by (rule emits_steps_silent) (use 1 in fastforce)
  ultimately show ?case by simp
next
  case (2 content source target copyFile' templateFile')
  have a: "copyFilesRecursively (File content) source target copyFile' templateFile'
      = (if endsWith source ''.ejs'' then
           steps [on_files (mkdir (dirname (ejs_targetPath target))),
                  templateFile' source (Some (ejs_targetPath target))]
         else
           seq (on_files (mkdir (dirname target)))
               (if endsWith source ''.append''
                then on_files (appendFile (append_target target) content)
                else copyFile' source target))"
    by (rule ext) simp
  have "emits (steps [on_files (mkdir (dirname (ejs_targetPath target))),
                  templateFile' source (Some (ejs_targetPath target))]) []"
    by (rule emits_steps_silent) (auto simp: emits_on_files "2.prems")
  moreover have "emits (seq (on_files (mkdir (dirname target)))
               (if endsWith source ''.append''
                then on_files (appendFile (append_target target) content)
                else copyFile' source target)) ([] @ [])"
    by (rule emits_seq) (simp_all add: emits_on_files "2.prems")
  ultimately show ?case unfolding a by simp
qed

lemma emits_assets_composed:
  "emits (assets_composed E projectName options targetDir a) []"
  unfolding assets_composed_def
  by (cases "node_at (catalog E) (components (resolve (directory a) ''assets''))")
     (simp_all add: emits_skip emits_copyFilesRecursively emits_on_files emits_templateFile)

text \<open>The body of the loop, by the outcome of its two awaited calls.\<close>

lemma command_step:
  "(case command a of
      None \<Rightarrow> skip
    | Some c \<Rightarrow>
        on_files (execa E (fst c) (case snd c of None \<Rightarrow> [] | Some args \<Rightarrow> args) targetDir))
   = on_files (post_command E targetDir a)"
  by (rule ext) (simp add: post_command_def skip_def on_files_def split: option.splits)

lemma composeAddOn_parts:
  "composeAddOn E projectName options targetDir a =
     steps [emit (SpinnerStart (''Setting up '' @ addOn_name a @ ''...'')),
            assets_composed E projectName options targetDir a,
            on_files (post_command E targetDir a),
            emit (SpinnerStop (addOn_name a @ '' setup complete''))]"
  unfolding composeAddOn_def Let_def command_step assets_composed_def ..

lemma composeAddOn_outcomes:
  "composeAddOn E projectName options targetDir a w =
     (case assets_composed E projectName options targetDir a (begun a w) of
        (Some e, w1) \<Rightarrow> (Some e, w1)
      | (None, w1) \<Rightarrow>
          (case post_command E targetDir a (files w1) of
             Inl e \<Rightarrow> (Some e, w1)
           | Inr f \<Rightarrow> (None, finished a f w1)))"
proof -
  have b: "emit (SpinnerStart (''Setting up '' @ addOn_name a @ ''...'')) w = (None, begun a w)"
    by (simp add: emit_def begun_def)
  obtain r1 w1 where a1: "assets_composed E projectName options targetDir a (begun a w) = (r1, w1)"
    by (cases "assets_composed E projectName options targetDir a (begun a w)")
  have f: "\<And>f. emit (SpinnerStop (addOn_name a @ '' setup complete'')) (w1\<lparr>files := f\<rparr>)
      = (None, finished a f w1)"
    by (simp add: emit_def finished_def)
  show ?thesis
    unfolding composeAddOn_parts a1
    by (cases r1; cases "post_command E targetDir a (files w1)")
       (simp_all only: steps.simps seq_def b a1 f on_files_def prod.case option.case sum.case)
qed

lemma steps_append: "steps (xs @ ys) w = seq (steps xs) (steps ys) w"
  by (induction xs arbitrary: w) (simp_all add: seq_def split: prod.splits option.splits)

lemma steps_composeAddOn:
  "steps (map (composeAddOn E projectName options targetDir) as) w
     = one_after_the_other E projectName options targetDir as w"
proof (induction as arbitrary: w)
  case Nil
  show ?case by simp
next
  case (Cons a as)
  obtain r1 w1 where c: "composeAddOn E projectName options targetDir a w = (r1, w1)"
    by (cases "composeAddOn E projectName options targetDir a w")
  have l: "steps (map (composeAddOn E projectName options targetDir) (a # as)) w
      = (case r1 of Some e \<Rightarrow> (Some e, w1)
         | None \<Rightarrow> one_after_the_other E projectName options targetDir as w1)"
    by (simp add: seq_def c Cons.IH split: option.splits)
  from c have "(case assets_composed E projectName options targetDir a (begun a w) of
        (Some e, w1) \<Rightarrow> (Some e, w1)
      | (None, w1) \<Rightarrow>
          (case post_command E targetDir a (files w1) of
             Inl e \<Rightarrow> (Some e, w1)
           | Inr f \<Rightarrow> (None, finished a f w1))) = (r1, w1)"
    by (simp only: composeAddOn_outcomes)
  then show ?case unfolding l
    by (auto split: prod.splits option.splits sum.splits)
qed

lemma composeAddOns_schedule:
  "composeAddOns E projectName options targetDir w
     = one_after_the_other E projectName options targetDir (schedule (chosenAddOns options)) w"
proof -
  have "composeAddOns E projectName options targetDir w
      = steps (map (composeAddOn E projectName options targetDir) (schedule (chosenAddOns options))) w"
    by (simp add: composeAddOns_def schedule_def steps_append seq_def
        split: prod.splits option.splits)
  then show ?thesis by (simp add: steps_composeAddOn)
qed

lemma one_after_the_other_append:
  "one_after_the_other E projectName options targetDir (xs @ ys) w
     = (case one_after_the_other E projectName options targetDir xs w of
          (Some e, w1) \<Rightarrow> (Some e, w1)
        | (None, w1) \<Rightarrow> one_after_the_other E projectName options targetDir ys w1)"
  by (induction xs arbitrary: w) (simp_all split: prod.splits option.splits sum.splits)

lemma emits_composeAddOn:
  "emits (composeAddOn E projectName options targetDir a) (addOn_events a)"
proof -
  let ?dir = "resolve (directory a) ''assets''"
  let ?assets = "case node_at (catalog E) (components ?dir) of
            None \<Rightarrow> skip
          | Some n \<Rightarrow>
              copyFilesRecursively n ?dir targetDir
                     (\<lambda>src dest. on_files (copyFile (catalog E) src dest))
                     (\<lambda>file targetFileName.
                        templateFile E projectName options targetDir ?dir file targetFileName)"
  let ?cmd = "case command a of
            None \<Rightarrow> skip
          | Some c \<Rightarrow>
              on_files (execa E (fst c) (case snd c of None \<Rightarrow> [] | Some args \<Rightarrow> args) targetDir)"
  have 1: "emits ?assets []"
    using emits_assets_composed [of E projectName options targetDir a]
    by (simp add: assets_composed_def)
  have 2: "emits ?cmd []"
    by (cases "command a") (simp_all add: emits_skip emits_on_files)
  have "emits (steps [emit (SpinnerStart (''Setting up '' @ addOn_name a @ ''...'')), ?assets, ?cmd,
                      emit (SpinnerStop (addOn_name a @ '' setup complete''))])
          ([SpinnerStart (''Setting up '' @ addOn_name a @ ''...'')] @ [] @ []
            @ [SpinnerStop (addOn_name a @ '' setup complete'')] @ [])"
    by (intro emits_steps_Cons emits_steps_Nil emits_emit 1 2)
  then show ?thesis by (simp add: composeAddOn_def addOn_events_def Let_def)
qed

lemma emits_composeAddOns:
  "emits (composeAddOns E projectName options targetDir)
     (concat (map addOn_events (schedule (chosenAddOns options))))"
proof -
  have "emits (composeAddOns E projectName options targetDir)
          (concat (map (\<lambda>ph. concat (map addOn_events
                     (filter (\<lambda>addOn. phase addOn = ph) (chosenAddOns options)))) [Setup, AddOnPhase]))"
    unfolding composeAddOns_def
    by (intro emits_steps_map emits_composeAddOn)
  then show ?thesis by (simp add: schedule_def)
qed

text \<open>
  Claim C6. The loop over the add-ons does what taking them one after the other does,
  the add-ons of phase \<^verbatim>\<open>setup\<close> in the order of the selection and then those of
  phase \<^verbatim>\<open>add-on\<close> in the order of the selection. So for every add-on of this
  sequence: the add-ons before it are done first, their trees composed and their
  commands run; then its own tree is composed on the file system they have left; then
  its command runs on the file system the composing has left; and only then the add-ons
  after it follow, from the file system the command has left. A failure of the composing
  leaves the command and the later add-ons out, a failure of the command the later
  add-ons. The spinner's messages come in the same order.
\<close>

theorem addOns_composed_in_phase_order:
  "composeAddOns E projectName options targetDir w
     = one_after_the_other E projectName options targetDir (schedule (chosenAddOns options)) w
   \<and> (schedule (chosenAddOns options) = before @ a # later \<longrightarrow>
        composeAddOns E projectName options targetDir w
          = (case one_after_the_other E projectName options targetDir before w of
               (Some e, w1) \<Rightarrow> (Some e, w1)
             | (None, w1) \<Rightarrow>
                 (case assets_composed E projectName options targetDir a (begun a w1) of
                    (Some e, w2) \<Rightarrow> (Some e, w2)
                  | (None, w2) \<Rightarrow>
                      (case post_command E targetDir a (files w2) of
                         Inl e \<Rightarrow> (Some e, w2)
                       | Inr f \<Rightarrow>
                           one_after_the_other E projectName options targetDir later (finished a f w2)))))
   \<and> (composeAddOns E projectName options targetDir w = (r, w') \<longrightarrow>
        (\<exists>tr. trace w' = trace w @ tr
            \<and> prefix tr (concat (map addOn_events (schedule (chosenAddOns options))))
            \<and> (r = None \<longrightarrow> tr = concat (map addOn_events (schedule (chosenAddOns options))))))"
proof (intro conjI impI)
  show "composeAddOns E projectName options targetDir w
     = one_after_the_other E projectName options targetDir (schedule (chosenAddOns options)) w"
    by (rule composeAddOns_schedule)
next
  assume "schedule (chosenAddOns options) = before @ a # later"
  then show "composeAddOns E projectName options targetDir w
          = (case one_after_the_other E projectName options targetDir before w of
               (Some e, w1) \<Rightarrow> (Some e, w1)
             | (None, w1) \<Rightarrow>
                 (case assets_composed E projectName options targetDir a (begun a w1) of
                    (Some e, w2) \<Rightarrow> (Some e, w2)
                  | (None, w2) \<Rightarrow>
                      (case post_command E targetDir a (files w2) of
                         Inl e \<Rightarrow> (Some e, w2)
                       | Inr f \<Rightarrow>
                           one_after_the_other E projectName options targetDir later (finished a f w2))))"
    by (simp add: composeAddOns_schedule one_after_the_other_append
        split: prod.splits option.splits sum.splits)
next
  assume "composeAddOns E projectName options targetDir w = (r, w')"
  with emits_composeAddOns [of E projectName options targetDir]
  show "\<exists>tr. trace w' = trace w @ tr
            \<and> prefix tr (concat (map addOn_events (schedule (chosenAddOns options))))
            \<and> (r = None \<longrightarrow> tr = concat (map addOn_events (schedule (chosenAddOns options))))"
    unfolding emits_def by blast
qed


lemma demo_schedule: "schedule (chosenAddOns demo_ctx) = [] @ demo_beta # [demo_alpha]"
  by (simp add: schedule_def demo_ctx_def demo_alpha_def demo_beta_def)

theorem addOns_composed_in_phase_order_witness:
  "chosenAddOns demo_ctx = [demo_alpha, demo_beta]
   \<and> phase demo_alpha = AddOnPhase \<and> phase demo_beta = Setup
   \<and> schedule (chosenAddOns demo_ctx) = [] @ demo_beta # [demo_alpha]
   \<and> command demo_beta = Some (''cp'', Some [''notes.md'', ''notes.bak''])
   \<and> fst (composeAddOns demo_externals ''demo'' demo_ctx ''/home/demo'' demo_world_existing) = None
   \<and> files (snd (composeAddOns demo_externals ''demo'' demo_ctx ''/home/demo'' demo_world_existing))
        [''home'', ''demo'', ''notes.bak''] = Some (FileE ''from beta;'')
   \<and> files (snd (composeAddOns demo_externals ''demo'' demo_ctx ''/home/demo'' demo_world_existing))
        [''home'', ''demo'', ''notes.md''] = Some (FileE ''from beta;from alpha'')
   \<and> trace (snd (composeAddOns demo_externals ''demo'' demo_ctx ''/home/demo'' demo_world_existing))
        = [SpinnerStart ''Setting up Beta...'', SpinnerStop ''Beta setup complete'',
           SpinnerStart ''Setting up Alpha...'', SpinnerStop ''Alpha setup complete'']"
proof -
  let ?X = "composeAddOns demo_externals ''demo'' demo_ctx ''/home/demo'' demo_world_existing"
  note t = addOns_composed_in_phase_order
    [of demo_externals "''demo''" demo_ctx "''/home/demo''" demo_world_existing
        "[]" demo_beta "[demo_alpha]" None "snd ?X"]
  have c: "chosenAddOns demo_ctx = [demo_alpha, demo_beta]" by (simp add: demo_ctx_def)
  have p: "phase demo_alpha = AddOnPhase" "phase demo_beta = Setup"
    by (simp_all add: demo_alpha_def demo_beta_def)
  have k: "command demo_beta = Some (''cp'', Some [''notes.md'', ''notes.bak''])"
    by (simp add: demo_beta_def)
  have "fst (one_after_the_other demo_externals ''demo'' demo_ctx ''/home/demo''
               (schedule (chosenAddOns demo_ctx)) demo_world_existing) = None"
    by code_simp
  with t [THEN conjunct1] have r: "fst ?X = None" by simp
  then have eq: "?X = (None, snd ?X)" by (simp add: prod_eq_iff)
  note t2 = t [THEN conjunct2, THEN conjunct1, THEN mp, OF demo_schedule]
  have "files (snd (case one_after_the_other demo_externals ''demo'' demo_ctx ''/home/demo'' [] demo_world_existing of
               (Some e, w1) \<Rightarrow> (Some e, w1)
             | (None, w1) \<Rightarrow>
                 (case assets_composed demo_externals ''demo'' demo_ctx ''/home/demo'' demo_beta (begun demo_beta w1) of
                    (Some e, w2) \<Rightarrow> (Some e, w2)
                  | (None, w2) \<Rightarrow>
                      (case post_command demo_externals ''/home/demo'' demo_beta (files w2) of
                         Inl e \<Rightarrow> (Some e, w2)
                       | Inr f \<Rightarrow>
                           one_after_the_other demo_externals ''demo'' demo_ctx ''/home/demo'' [demo_alpha]
                             (finished demo_beta f w2)))))
          [''home'', ''demo'', ''notes.bak''] = Some (FileE ''from beta;'')"
    by code_simp
  then have f1: "files (snd ?X) [''home'', ''demo'', ''notes.bak''] = Some (FileE ''from beta;'')"
    unfolding t2 .
  have "files (snd (case one_after_the_other demo_externals ''demo'' demo_ctx ''/home/demo'' [] demo_world_existing of
               (Some e, w1) \<Rightarrow> (Some e, w1)
             | (None, w1) \<Rightarrow>
                 (case assets_composed demo_externals ''demo'' demo_ctx ''/home/demo'' demo_beta (begun demo_beta w1) of
                    (Some e, w2) \<Rightarrow> (Some e, w2)
                  | (None, w2) \<Rightarrow>
                      (case post_command demo_externals ''/home/demo'' demo_beta (files w2) of
                         Inl e \<Rightarrow> (Some e, w2)
                       | Inr f \<Rightarrow>
                           one_after_the_other demo_externals ''demo'' demo_ctx ''/home/demo'' [demo_alpha]
                             (finished demo_beta f w2)))))
          [''home'', ''demo'', ''notes.md''] = Some (FileE ''from beta;from alpha'')"
    by code_simp
  then have f2: "files (snd ?X) [''home'', ''demo'', ''notes.md''] = Some (FileE ''from beta;from alpha'')"
    unfolding t2 .
  note t3 = t [THEN conjunct2, THEN conjunct2, THEN mp, OF eq]
  have e: "concat (map addOn_events (schedule (chosenAddOns demo_ctx)))
      = [SpinnerStart ''Setting up Beta...'', SpinnerStop ''Beta setup complete'',
         SpinnerStart ''Setting up Alpha...'', SpinnerStop ''Alpha setup complete'']"
    by code_simp
  from t3 have tr: "trace (snd ?X)
      = [SpinnerStart ''Setting up Beta...'', SpinnerStop ''Beta setup complete'',
         SpinnerStart ''Setting up Alpha...'', SpinnerStop ''Alpha setup complete'']"
    unfolding e by (simp add: demo_world_existing_def)
  from c p demo_schedule k r f1 f2 tr show ?thesis by (intro conjI)
qed

section \<open>Two complete runs\<close>

text \<open>
  A typed code-router project without add-ons: the manifest carries the project's
  name, \<^verbatim>\<open>tsconfig.json\<close> is there and \<^verbatim>\<open>src/routes\<close> is not.
\<close>

lemma demo_plain_files:
  "files (snd (createApp demo_externals ''demo'' demo_plain demo_world))
     [''home'', ''demo'', ''package.json''] = Some (FileE ''demo:react'')
   \<and> files (snd (createApp demo_externals ''demo'' demo_plain demo_world))
     [''home'', ''demo'', ''tsconfig.json''] = Some (FileE ''tsconfig'')
   \<and> files (snd (createApp demo_externals ''demo'' demo_plain demo_world))
     [''home'', ''demo'', ''src'', ''routes''] = None"
  by code_simp

text \<open>
  A file-router project with both add-ons, from the command line's action: the
  dependencies of the add-ons are in the manifest, the file the \<^verbatim>\<open>setup\<close> add-on
  copies has been extended by the \<^verbatim>\<open>add-on\<close> add-on that is chosen before it, and
  the copy the \<^verbatim>\<open>setup\<close> add-on's command takes of that file is of the file as it
  was in between.
\<close>

lemma demo_file_router_run:
  "fst (action demo_externals ''demo'' demo_cli demo_world) = None
   \<and> files (snd (action demo_externals ''demo'' demo_cli demo_world))
     [''home'', ''demo'', ''package.json'']
       = Some (FileE ''demo:@tanstack/router-plugin,foo,react,tailwindcss'')
   \<and> files (snd (action demo_externals ''demo'' demo_cli demo_world))
     [''home'', ''demo'', ''notes.md''] = Some (FileE ''from beta;from alpha'')
   \<and> files (snd (action demo_externals ''demo'' demo_cli demo_world))
     [''home'', ''demo'', ''notes.bak''] = Some (FileE ''from beta;'')"
  by code_simp

end
